theory Spec2Isabelle
  imports Main "HOL-Library.Sublist"
begin

section \<open>Go strings\<close>

text \<open>
  A Go string is a sequence of bytes, modelled as \<^typ>\<open>string\<close> (a list of 8-bit
  characters). The functions of package \<^verbatim>\<open>strings\<close> that the pipeline calls are
  written out after their Go implementations.
\<close>

text \<open>\<^verbatim>\<open>strings.HasPrefix\<close>: \<^verbatim>\<open>len(s) >= len(prefix) && s[:len(prefix)] == prefix\<close>.\<close>

definition HasPrefix :: "string \<Rightarrow> string \<Rightarrow> bool" where
  "HasPrefix s pre = (length pre \<le> length s \<and> take (length pre) s = pre)"

text \<open>\<^verbatim>\<open>strings.HasSuffix\<close>: \<^verbatim>\<open>len(s) >= len(suffix) && s[len(s)-len(suffix):] == suffix\<close>.\<close>

definition HasSuffix :: "string \<Rightarrow> string \<Rightarrow> bool" where
  "HasSuffix s suf = (length suf \<le> length s \<and> drop (length s - length suf) s = suf)"

text \<open>
  \<^verbatim>\<open>strings.Split(s, sep)\<close> for a separator of one byte (the pipeline only splits at
  \<^verbatim>\<open>"\n"\<close>). The library cuts the text at each separator in turn and ends with the
  rest, so there is one piece more than there are separators and the empty string
  gives one empty piece. \<open>split_from cur s sep\<close> is that loop with the piece \<open>cur\<close>
  read so far.
\<close>

fun split_from :: "string \<Rightarrow> string \<Rightarrow> char \<Rightarrow> string list" where
  "split_from cur [] sep = [cur]"
| "split_from cur (x # xs) sep =
     (if x = sep then cur # split_from [] xs sep else split_from (cur @ [x]) xs sep)"

definition Split :: "string \<Rightarrow> char \<Rightarrow> string list" where
  "Split s sep = split_from [] s sep"

text \<open>\<^verbatim>\<open>strings.Join(elems, sep)\<close>.\<close>

fun Join :: "string list \<Rightarrow> string \<Rightarrow> string" where
  "Join [] sep = []"
| "Join [a] sep = a"
| "Join (a # b # elems) sep = a @ sep @ Join (b # elems) sep"

text \<open>
  A Go slice expression \<^verbatim>\<open>xs[lo:hi]\<close>; the source only evaluates it under a guard
  that makes \<open>lo \<le> hi \<le> len(xs)\<close>, so the panic of an out-of-range slice is not
  reachable there.
\<close>

definition slice :: "'a list \<Rightarrow> nat \<Rightarrow> nat \<Rightarrow> 'a list" where
  "slice xs lo hi = take (hi - lo) (drop lo xs)"

text \<open>
  \<^verbatim>\<open>strings.Contains\<close> is not called by the pipeline; it is the vocabulary in which
  the statements below say that a text holds no fence.
\<close>

fun Contains :: "string \<Rightarrow> string \<Rightarrow> bool" where
  "Contains [] sub = (sub = [])"
| "Contains (x # xs) sub = (HasPrefix (x # xs) sub \<or> Contains xs sub)"

text \<open>The verb \<^verbatim>\<open>%d\<close> of package \<^verbatim>\<open>fmt\<close> on an \<^verbatim>\<open>int\<close>: decimal digits, with a sign when negative.\<close>

definition digit :: "nat \<Rightarrow> char" where
  "digit d = ''0123456789'' ! d"

function show_nat :: "nat \<Rightarrow> string" where
  "show_nat n = (if n < 10 then [digit n] else show_nat (n div 10) @ [digit (n mod 10)])"
  by pat_completeness auto
termination
  by (relation "measure id") auto

definition show_int :: "int \<Rightarrow> string" where
  "show_int i = (if i < 0 then ''-'' @ show_nat (nat (- i)) else show_nat (nat i))"

section \<open>Go errors\<close>

text \<open>
  An error value is the package's sentinel \<^verbatim>\<open>ErrUnexpectedStatusCode\<close>, an error
  made by a library (\<^verbatim>\<open>encoding/json\<close>, \<^verbatim>\<open>net/http\<close>, \<^verbatim>\<open>io\<close>, \<^verbatim>\<open>regexp\<close>),
  known by its message only, or the result of \<^verbatim>\<open>fmt.Errorf\<close> with one \<^verbatim>\<open>%w\<close>
  verb: the formatted message and the wrapped error.
\<close>

datatype error =
    ErrUnexpectedStatusCode
  | Foreign string
  | Errorf string error

text \<open>The method \<^verbatim>\<open>Error()\<close> of an error: its message.\<close>

fun ErrorString :: "error \<Rightarrow> string" where
  "ErrorString ErrUnexpectedStatusCode = ''unexpected status code''"
| "ErrorString (Foreign msg) = msg"
| "ErrorString (Errorf msg err) = msg"

text \<open>\<^verbatim>\<open>errors.Is\<close>: the error or one it wraps is the target.\<close>

fun errors_Is :: "error \<Rightarrow> error \<Rightarrow> bool" where
  "errors_Is (Errorf msg err) target = (Errorf msg err = target \<or> errors_Is err target)"
| "errors_Is err target = (err = target)"

section \<open>The completion transport\<close>

subsection \<open>Responses of the service\<close>

text \<open>
  Modelled from the spec: the declarations of the request and response types of
  package \<^verbatim>\<open>openai\<close> are not among the sources. The spec gives an error body as
  \<^verbatim>\<open>{Error:{Message, ...}}\<close> and a completion as \<^verbatim>\<open>{ID, Object, Created, Model,
  SystemFingerprint, Choices: ordered sequence of {Index, Message:{Role,Content},
  FinishReason}}\<close>, and the code reads these fields under these names. A \<^verbatim>\<open>nil\<close>
  slice of choices and an empty one are both the empty list: the code treats them
  alike. The request type \<^verbatim>\<open>CreateChatCompletion\<close> stays a type parameter \<open>'req\<close>.
\<close>

record ErrorDetail =
  Message :: string

record ErrorResponse =
  Error :: ErrorDetail

record ChatMessage =
  Role :: string
  Content :: string

record Choice =
  Index :: int
  Message :: ChatMessage
  FinishReason :: string

record ChatCompletion =
  ID :: string
  Object :: string
  Created :: int
  Model :: string
  SystemFingerprint :: string
  Choices :: "Choice list"

subsection \<open>The libraries under the transport\<close>

text \<open>
  The transport calls \<^verbatim>\<open>encoding/json\<close>, \<^verbatim>\<open>net/http\<close> and \<^verbatim>\<open>io\<close>. They are
  parameters of the model: a record of functions that return either the message of
  the library's error or the value. The exchange with the service changes a world
  \<open>'w\<close>. The body of a response is given as what \<^verbatim>\<open>io.ReadAll\<close> makes of it: an
  error or the bytes.
\<close>

record Request =
  Method :: string
  URL :: string
  Header :: "string \<rightharpoonup> string"
  RequestBody :: string

record Response =
  StatusCode :: int
  Body :: "string + string"

record ('ctx, 'req, 'w) Library =
  json_Marshal :: "'req \<Rightarrow> string + string"
  http_NewRequestWithContext :: "'ctx \<Rightarrow> string \<Rightarrow> string \<Rightarrow> string \<Rightarrow> string + Request"
  http_Client_Do :: "Request \<Rightarrow> 'w \<Rightarrow> (string + Response) \<times> 'w"
  json_Unmarshal_ErrorResponse :: "string \<Rightarrow> string + ErrorResponse"
  json_Unmarshal_ChatCompletion :: "string \<Rightarrow> string + ChatCompletion"

text \<open>\<^verbatim>\<open>req.Header.Set(key, value)\<close>.\<close>

definition Header_Set :: "Request \<Rightarrow> string \<Rightarrow> string \<Rightarrow> Request" where
  "Header_Set req key v = req\<lparr>Header := (Header req)(key \<mapsto> v)\<rparr>"

subsection \<open>The client\<close>

text \<open>
  What the client prints under a log level, and the message it prints when closing
  the body fails, go to standard output and change no result; they are left out.
\<close>

record ChatClient =
  apikey :: string
  model :: string
  logLevel :: string
  maxTokens :: "int option"

definition sendChatCompletionsRequest ::
  "ChatClient \<Rightarrow> ('ctx, 'req, 'w) Library \<Rightarrow> 'ctx \<Rightarrow> 'req \<Rightarrow> 'w \<Rightarrow> (error + Response) \<times> 'w" where
  "sendChatCompletionsRequest c lib ctx ccc w =
     (case json_Marshal lib ccc of
        Inl msg \<Rightarrow> (Inl (Errorf (''failed to marshal request body: '' @ msg) (Foreign msg)), w)
      | Inr requestBody \<Rightarrow>
          (case http_NewRequestWithContext lib ctx ''POST''
                  ''https://api.openai.com/v1/chat/completions'' requestBody of
             Inl msg \<Rightarrow> (Inl (Errorf (''failed to create new request: '' @ msg) (Foreign msg)), w)
           | Inr req \<Rightarrow>
               (let req = Header_Set req ''Content-Type'' ''application/json'';
                    req = Header_Set req ''Authorization'' (''Bearer '' @ apikey c)
                in case http_Client_Do lib req w of
                     (Inl msg, w') \<Rightarrow> (Inl (Errorf (''request failed: '' @ msg) (Foreign msg)), w')
                   | (Inr resp, w') \<Rightarrow> (Inr resp, w'))))"

definition makeChatCompletions ::
  "ChatClient \<Rightarrow> ('ctx, 'req, 'w) Library \<Rightarrow> string \<Rightarrow> error + ChatCompletion" where
  "makeChatCompletions c lib body =
     (case json_Unmarshal_ChatCompletion lib body of
        Inl msg \<Rightarrow> Inl (Errorf (''failed to unmarshal response body: '' @ msg) (Foreign msg))
      | Inr completion \<Rightarrow> Inr completion)"

definition RequestCreateChatCompletion ::
  "ChatClient \<Rightarrow> ('ctx, 'req, 'w) Library \<Rightarrow> 'ctx \<Rightarrow> 'req \<Rightarrow> 'w
     \<Rightarrow> (error + ChatCompletion) \<times> 'w" where
  "RequestCreateChatCompletion c lib ctx ccc w =
     (case sendChatCompletionsRequest c lib ctx ccc w of
        (Inl err, w') \<Rightarrow> (Inl (Errorf (''failed to execute request: '' @ ErrorString err) err), w')
      | (Inr resp, w') \<Rightarrow>
          (case Body resp of
             Inl msg \<Rightarrow> (Inl (Errorf (''failed to read response body: '' @ msg) (Foreign msg)), w')
           | Inr respBody \<Rightarrow>
               if StatusCode resp > 299 then
                 (case json_Unmarshal_ErrorResponse lib respBody of
                    Inl msg \<Rightarrow>
                      (Inl (Errorf (''failed to unmarshal error response: '' @ msg) (Foreign msg)), w')
                  | Inr errorResponse \<Rightarrow>
                      (Inl (Errorf (ErrorString ErrUnexpectedStatusCode @ '': ''
                                     @ show_int (StatusCode resp) @ '' '' @ [CHR 0x27]
                                     @ ErrorDetail.Message (Error errorResponse) @ [CHR 0x27])
                              ErrUnexpectedStatusCode), w'))
               else (makeChatCompletions c lib respBody, w')))"

section \<open>The shaping result\<close>

record ShapeResult =
  Prompt :: string
  RawResult :: string
  Result :: string

definition NewShapeResult :: "string \<Rightarrow> string \<Rightarrow> string \<Rightarrow> ShapeResult" where
  "NewShapeResult prompt rawResult result =
     \<lparr>Prompt = prompt, RawResult = rawResult,
      Result = (if \<not> HasSuffix result ''\<newline>'' then result @ ''\<newline>'' else result)\<rparr>"

section \<open>The response optimizer\<close>

subsection \<open>The compiled pattern\<close>

text \<open>
  \<^verbatim>\<open>findMarkdownFirstCodeBlock\<close> compiles one constant pattern and asks for its
  leftmost match with submatches. Package \<^verbatim>\<open>regexp\<close> returns the match that a
  backtracking search finds first (leftmost-first, as in Perl), so the compiled pattern
  is a list of instructions run by a backtracking matcher: a literal byte, a lazy
  repetition \<^verbatim>\<open>c*?\<close> of a character class, and the two ends of capture group 1.

  The matcher works on bytes where the library works on UTF-8 code points. The bytes
  that the pattern names are ASCII and the class \<^verbatim>\<open>.\<close> under \<^verbatim>\<open>(?s)\<close> accepts
  every code point, so both see the same matches.
\<close>

datatype inst =
    Lit char
  | LazyStar "char \<Rightarrow> bool"
  | GroupOpen
  | GroupClose

type_synonym Regexp = "inst list"

text \<open>Capture group 1 of a thread: not entered, being read, or closed.\<close>

datatype group = Unset | Opened string | Closed string

fun consume :: "group \<Rightarrow> char \<Rightarrow> group" where
  "consume (Opened c) x = Opened (c @ [x])"
| "consume g x = g"

fun close_group :: "group \<Rightarrow> group" where
  "close_group (Opened c) = Closed c"
| "close_group g = g"

text \<open>
  \<open>backtrack prog s whole g\<close> runs the rest \<open>prog\<close> of the pattern on the rest \<open>s\<close>
  of the text, after the bytes \<open>whole\<close> have been matched. A lazy repetition first
  tries to go on without taking a byte, and takes one only when that fails.
\<close>

fun backtrack :: "Regexp \<Rightarrow> string \<Rightarrow> string \<Rightarrow> group \<Rightarrow> (string \<times> group) option" where
  "backtrack [] s whole g = Some (whole, g)"
| "backtrack (Lit a # prog) [] whole g = None"
| "backtrack (Lit a # prog) (x # xs) whole g =
     (if x = a then backtrack prog xs (whole @ [x]) (consume g x) else None)"
| "backtrack (LazyStar cls # prog) [] whole g = backtrack prog [] whole g"
| "backtrack (LazyStar cls # prog) (x # xs) whole g =
     (case backtrack prog (x # xs) whole g of
        Some m \<Rightarrow> Some m
      | None \<Rightarrow>
          if cls x then backtrack (LazyStar cls # prog) xs (whole @ [x]) (consume g x)
          else None)"
| "backtrack (GroupOpen # prog) s whole g = backtrack prog s whole (Opened [])"
| "backtrack (GroupClose # prog) s whole g = backtrack prog s whole (close_group g)"

text \<open>The text of a group in the result: empty when the group took no part.\<close>

fun submatch :: "group \<Rightarrow> string" where
  "submatch (Closed c) = c"
| "submatch g = []"

text \<open>
  \<^verbatim>\<open>(*Regexp).FindStringSubmatch\<close>: the match at the leftmost position that has one,
  as the list of the whole match and group 1; \<open>None\<close> is Go's \<^verbatim>\<open>nil\<close>.
\<close>

fun FindStringSubmatch :: "Regexp \<Rightarrow> string \<Rightarrow> string list option" where
  "FindStringSubmatch re [] =
     (case backtrack re [] [] Unset of
        Some (whole, g) \<Rightarrow> Some [whole, submatch g]
      | None \<Rightarrow> None)"
| "FindStringSubmatch re (x # xs) =
     (case backtrack re (x # xs) [] Unset of
        Some (whole, g) \<Rightarrow> Some [whole, submatch g]
      | None \<Rightarrow> FindStringSubmatch re xs)"

text \<open>A range \<^verbatim>\<open>lo-hi\<close> of a character class.\<close>

definition in_range :: "char \<Rightarrow> char \<Rightarrow> char \<Rightarrow> bool" where
  "in_range lo hi c = ((of_char lo :: nat) \<le> of_char c \<and> (of_char c :: nat) \<le> of_char hi)"

text \<open>The class \<^verbatim>\<open>[a-zA-Z0-9]\<close>.\<close>

definition alnum :: "char \<Rightarrow> bool" where
  "alnum c = (in_range CHR ''a'' CHR ''z'' c \<or> in_range CHR ''A'' CHR ''Z'' c
              \<or> in_range CHR ''0'' CHR ''9'' c)"

text \<open>The class \<^verbatim>\<open>.\<close> under the flag \<^verbatim>\<open>(?s)\<close>.\<close>

definition any_char :: "char \<Rightarrow> bool" where
  "any_char c = True"

text \<open>
  What \<^verbatim>\<open>regexp.Compile\<close> makes of the pattern of the source,
  \<^verbatim>\<open>(?s)```[a-zA-Z0-9]*?\n(.*?\n)```\<close>: the opening fence, a lazy run of
  letters and digits, a line break, then group 1 (a lazy run of any bytes and a line
  break), and the closing fence.
\<close>

definition code_block_prog :: Regexp where
  "code_block_prog =
     [Lit CHR ''`'', Lit CHR ''`'', Lit CHR ''`'',
      LazyStar alnum, Lit CHR ''\<newline>'',
      GroupOpen, LazyStar any_char, Lit CHR ''\<newline>'', GroupClose,
      Lit CHR ''`'', Lit CHR ''`'', Lit CHR ''`'']"

text \<open>
  \<^verbatim>\<open>regexp.Compile\<close> on the one pattern of the source, which is well formed and
  compiles. The model knows no other pattern and has the library refuse them.
\<close>

definition regexp_Compile :: "string \<Rightarrow> error + Regexp" where
  "regexp_Compile expr =
     (if expr = ''(?s)```[a-zA-Z0-9]*?\<newline>(.*?\<newline>)```''
      then Inr code_block_prog
      else Inl (Foreign ''error parsing regexp''))"

subsection \<open>The optimizer\<close>

definition findMarkdownFirstCodeBlock :: "string \<Rightarrow> error + string" where
  "findMarkdownFirstCodeBlock text =
     (case regexp_Compile ''(?s)```[a-zA-Z0-9]*?\<newline>(.*?\<newline>)```'' of
        Inl err \<Rightarrow> Inl (Errorf (''error compiling regex: '' @ ErrorString err) err)
      | Inr re \<Rightarrow>
          (case FindStringSubmatch re text of
             Some match \<Rightarrow> Inr (match ! 1)
           | None \<Rightarrow> Inr []))"

definition optimizeResponseResult :: "string \<Rightarrow> bool \<Rightarrow> error + string" where
  "optimizeResponseResult rawResult useFirstCodeBlock =
     (let result = rawResult;
          result =
            (if HasPrefix result ''```'' \<and> HasSuffix result ''```'' then
               (let lines = Split result CHR ''\<newline>'' in
                if length lines > 2
                then Join (slice lines 1 (length lines - 1)) ''\<newline>''
                else result)
             else result)
      in if useFirstCodeBlock then
           (case findMarkdownFirstCodeBlock result of
              Inl err \<Rightarrow> Inl (Errorf (''error finding first code block: '' @ ErrorString err) err)
            | Inr codeBlock \<Rightarrow> Inr (if codeBlock \<noteq> [] then codeBlock else result))
         else Inr result)"

section \<open>The completion requester and the orchestrator\<close>

subsection \<open>The client interface\<close>

text \<open>
  The interface \<^verbatim>\<open>GenerativeAIClient\<close>. An implementation is free to have effects
  (the real one talks to a remote service), so both methods take and return a state
  \<open>'w\<close> of the world outside; \<open>'req\<close> is the request type
  \<^verbatim>\<open>*openai.CreateChatCompletion\<close>.
\<close>

record ('req, 'w) GenerativeAIClient =
  gai_RequestCreateChatCompletion :: "'req \<Rightarrow> 'w \<Rightarrow> (error + ChatCompletion) \<times> 'w"
  gai_MakeCreateChatCompletion :: "string \<Rightarrow> 'w \<Rightarrow> 'req \<times> 'w"

record ('req, 'w) Shaper =
  gai :: "('req, 'w) GenerativeAIClient"
  maxCompletionRepeatCount :: int
  useFirstCodeBlock :: bool
  promptOptimize :: bool

definition NewShaper ::
  "('req, 'w) GenerativeAIClient \<Rightarrow> int \<Rightarrow> bool \<Rightarrow> bool \<Rightarrow> ('req, 'w) Shaper" where
  "NewShaper g maxCount useFirst optimize =
     \<lparr>gai = g, maxCompletionRepeatCount = maxCount,
      useFirstCodeBlock = useFirst, promptOptimize = optimize\<rparr>"

subsection \<open>The requester\<close>

text \<open>
  The loop \<^verbatim>\<open>for i := 0; i < maxCount; i++\<close> of \<^verbatim>\<open>requestCreateChatCompletion\<close>,
  entered at \<open>i\<close> with the content \<open>result\<close> gathered so far. A \<^verbatim>\<open>break\<close> and the
  end of the loop both return the gathered content; the error of the client returns
  at once.
\<close>

function request_loop ::
  "('req, 'w) GenerativeAIClient \<Rightarrow> 'req \<Rightarrow> int \<Rightarrow> int \<Rightarrow> string \<Rightarrow> 'w
     \<Rightarrow> (error + string) \<times> 'w" where
  "request_loop g cr maxCount i result w =
     (if i < maxCount then
        (case gai_RequestCreateChatCompletion g cr w of
           (Inl err, w') \<Rightarrow>
             (Inl (Errorf (''failed to send chat message: '' @ ErrorString err) err), w')
         | (Inr completion, w') \<Rightarrow>
             (case Choices completion of
                [] \<Rightarrow> (Inr result, w')
              | choice # others \<Rightarrow>
                  (let result' = result @ Content (Message choice) in
                   if FinishReason choice \<noteq> ''length'' then (Inr result', w')
                   else request_loop g cr maxCount (i + 1) result' w')))
      else (Inr result, w))"
  by pat_completeness auto
termination
  by (relation "measure (\<lambda>(g, cr, maxCount, i, result, w). nat (maxCount - i))") auto

text \<open>
  The configured \<^verbatim>\<open>s.maxCompletionRepeatCount\<close> is not read: the line that read it
  is commented out in the source and the bound is the constant 1.
\<close>

definition requestCreateChatCompletion ::
  "('req, 'w) Shaper \<Rightarrow> string \<Rightarrow> 'w \<Rightarrow> (error + string) \<times> 'w" where
  "requestCreateChatCompletion s prompt w =
     (case gai_MakeCreateChatCompletion (gai s) prompt w of
        (cr, w1) \<Rightarrow> (let maxCount = 1 in request_loop (gai s) cr maxCount 0 [] w1))"

subsection \<open>The prompt optimizer\<close>

definition supplements :: "string list" where
  "supplements =
     [''The subject of the Instruction is the area enclosed by the ai-text-shaper-input tag.'',
      ''The result should be returned in the language of the Instruction, but if the Instruction has a language specification, that language should be given priority.'',
      ''Provide additional explanations or details only if explicitly requested in the Instruction.'']"

definition optimizePrompt :: "string \<Rightarrow> string \<Rightarrow> string" where
  "optimizePrompt prompt input =
     (let supplementation = Join supplements '' '' in
      ''<Instruction>'' @ prompt @ ''. ('' @ supplementation @ '')</Instruction>\<newline><ai-text-shaper-input>''
        @ input @ ''</ai-text-shaper-input>'')"

subsection \<open>The orchestrator\<close>

definition ShapeText ::
  "('req, 'w) Shaper \<Rightarrow> string \<Rightarrow> string \<Rightarrow> 'w \<Rightarrow> (error + ShapeResult) \<times> 'w" where
  "ShapeText s promptOrg inputOrg w =
     (if inputOrg = [] \<and> \<not> promptOptimize s then
        (case requestCreateChatCompletion s promptOrg w of
           (Inl err, w') \<Rightarrow> (Inl err, w')
         | (Inr rawResult, w') \<Rightarrow>
             (let result = rawResult in (Inr (NewShapeResult promptOrg rawResult result), w')))
      else
        (let optimized = optimizePrompt promptOrg inputOrg in
         case requestCreateChatCompletion s optimized w of
           (Inl err, w') \<Rightarrow> (Inl err, w')
         | (Inr rawResult, w') \<Rightarrow>
             (case optimizeResponseResult rawResult (useFirstCodeBlock s) of
                Inl err \<Rightarrow> (Inl err, w')
              | Inr result \<Rightarrow> (Inr (NewShapeResult optimized rawResult result), w'))))"

subsection \<open>Clients for observing and for running the pipeline\<close>

text \<open>
  A client that behaves as \<open>g\<close> and keeps a log of the calls it receives: the world
  is that of \<open>g\<close> with the log beside it.
\<close>

datatype 'req gai_call = MakeCall string | SendCall 'req

definition recording ::
  "('req, 'w) GenerativeAIClient \<Rightarrow> ('req, 'w \<times> 'req gai_call list) GenerativeAIClient" where
  "recording g =
     \<lparr>gai_RequestCreateChatCompletion =
        (\<lambda>cr (w, calls).
           case gai_RequestCreateChatCompletion g cr w of
             (res, w') \<Rightarrow> (res, (w', calls @ [SendCall cr]))),
      gai_MakeCreateChatCompletion =
        (\<lambda>prompt (w, calls).
           case gai_MakeCreateChatCompletion g prompt w of
             (cr, w') \<Rightarrow> (cr, (w', calls @ [MakeCall prompt])))\<rparr>"

text \<open>
  A client whose request is the prompt itself and whose service answers every request
  with the same completion; its world counts the requests sent.
\<close>

definition canned :: "ChatCompletion \<Rightarrow> (string, nat) GenerativeAIClient" where
  "canned completion =
     \<lparr>gai_RequestCreateChatCompletion = (\<lambda>cr n. (Inr completion, Suc n)),
      gai_MakeCreateChatCompletion = (\<lambda>prompt n. (prompt, n))\<rparr>"

definition completion_of :: "Choice list \<Rightarrow> ChatCompletion" where
  "completion_of cs =
     \<lparr>ID = ''chatcmpl-1'', Object = ''chat.completion'', Created = 0, Model = ''gpt-4o'',
      SystemFingerprint = ''fp'', Choices = cs\<rparr>"

definition choice_of :: "string \<Rightarrow> string \<Rightarrow> Choice" where
  "choice_of content reason =
     \<lparr>Index = 0, Message = \<lparr>Role = ''assistant'', Content = content\<rparr>, FinishReason = reason\<rparr>"

text \<open>
  Libraries for running the transport: the service answers every request with one
  status code and body, the decoder of error bodies knows one body, and the decoder of
  completions refuses what it is given.
\<close>

definition bad_request_body :: string where
  \<open>bad_request_body = ''{"error":{"message":"bad request"}}''\<close>

definition stub_library :: "int \<Rightarrow> string \<Rightarrow> (unit, string, nat) Library" where
  "stub_library code body =
     \<lparr>json_Marshal = (\<lambda>ccc. Inr ccc),
      http_NewRequestWithContext =
        (\<lambda>ctx method url b. Inr \<lparr>Method = method, URL = url, Header = Map.empty, RequestBody = b\<rparr>),
      http_Client_Do = (\<lambda>req n. (Inr \<lparr>StatusCode = code, Body = Inr body\<rparr>, Suc n)),
      json_Unmarshal_ErrorResponse =
        (\<lambda>b. if b = bad_request_body then Inr \<lparr>Error = \<lparr>ErrorDetail.Message = ''bad request''\<rparr>\<rparr>
             else Inl ''invalid character''),
      json_Unmarshal_ChatCompletion = (\<lambda>b. Inl ''unexpected end of JSON input'')\<rparr>"

definition stub_client :: ChatClient where
  "stub_client = \<lparr>apikey = ''sk-test'', model = ''gpt-4o'', logLevel = [], maxTokens = None\<rparr>"

text \<open>
  What the spec means by a text that ends with exactly one line terminator: it ends
  with a line break and not with two.
\<close>

definition ends_with_one_terminator :: "string \<Rightarrow> bool" where
  "ends_with_one_terminator s = (HasSuffix s ''\<newline>'' \<and> \<not> HasSuffix s ''\<newline>\<newline>'')"

section \<open>Facts about the string functions\<close>

lemma HasPrefix_iff: "HasPrefix s pre \<longleftrightarrow> prefix pre s"
  unfolding HasPrefix_def prefix_def
  by (metis append_eq_conv_conj append_take_drop_id length_append le_add1)

lemma HasSuffix_iff: "HasSuffix s suf \<longleftrightarrow> suffix suf s"
proof
  assume "HasSuffix s suf"
  then have "s = take (length s - length suf) s @ suf"
    unfolding HasSuffix_def by (metis append_take_drop_id)
  then show "suffix suf s"
    unfolding suffix_def by blast
next
  assume "suffix suf s"
  then obtain p where "s = p @ suf"
    unfolding suffix_def by blast
  then show "HasSuffix s suf"
    unfolding HasSuffix_def by simp
qed

lemma HasSuffix_append [simp]: "HasSuffix (s @ suf) suf"
  by (simp add: HasSuffix_def)

section \<open>Trailing line terminator\<close>

text \<open>
  C8. The normalisation that \<open>NewShapeResult\<close> applies to the result is idempotent:
  a result that already ends with a line terminator is kept as it is (so normalising
  twice is normalising once, and two or more trailing terminators are not collapsed),
  and a result that lacks one gets exactly one \<^verbatim>\<open>"\n"\<close> appended.
\<close>

theorem NewShapeResult_normalisation_idempotent:
  "Result (NewShapeResult p' r' (Result (NewShapeResult p r x))) = Result (NewShapeResult p r x)
   \<and> (HasSuffix x ''\<newline>'' \<longrightarrow> Result (NewShapeResult p r x) = x)
   \<and> (\<not> HasSuffix x ''\<newline>'' \<longrightarrow> Result (NewShapeResult p r x) = x @ ''\<newline>'')
   \<and> Result (NewShapeResult p r (y @ ''\<newline>\<newline>'')) = y @ ''\<newline>\<newline>''"
proof -
  have two: "HasSuffix (y @ ''\<newline>\<newline>'') ''\<newline>''"
    by (simp add: HasSuffix_iff suffix_def)
  show ?thesis
    using two by (simp add: NewShapeResult_def)
qed

theorem NewShapeResult_normalisation_idempotent_witness:
  "Result (NewShapeResult ''p'' ''r'' (Result (NewShapeResult ''p'' ''r'' ''abc''))) = ''abc\<newline>''
   \<and> Result (NewShapeResult ''p'' ''r'' ''abc\<newline>'') = ''abc\<newline>''
   \<and> Result (NewShapeResult ''p'' ''r'' ''abc\<newline>\<newline>'') = ''abc\<newline>\<newline>''"
  using NewShapeResult_normalisation_idempotent [of "''p''" "''r''" "''p''" "''r''" "''abc''" "''abc''"]
    NewShapeResult_normalisation_idempotent [of "''p''" "''r''" "''p''" "''r''" "''abc\<newline>''" "''abc''"]
  by (simp add: HasSuffix_def)

section \<open>Facts about the matcher and the line functions\<close>

lemma alnum_newline [simp]: "\<not> alnum CHR ''\<newline>''"
  by (simp add: alnum_def in_range_def)

lemma alnum_backtick [simp]: "\<not> alnum CHR ''`''"
  by (simp add: alnum_def in_range_def)

lemma foldl_consume_Unset [simp]: "foldl consume Unset us = Unset"
  by (induction us) auto

lemma foldl_consume_Opened [simp]: "foldl consume (Opened c) us = Opened (c @ us)"
  by (induction us arbitrary: c) auto

lemma foldl_consume_Closed [simp]: "foldl consume (Closed c) us = Closed c"
  by (induction us) auto

lemma backtrack_Lit:
  assumes "backtrack (Lit a # prog) s whole g = Some m"
  obtains xs where "s = a # xs" and "backtrack prog xs (whole @ [a]) (consume g a) = Some m"
  using assms by (cases s) (auto split: if_splits)

lemma backtrack_LazyStar_ex:
  "backtrack (LazyStar cls # prog) s whole g = Some m \<Longrightarrow>
   \<exists>us vs. s = us @ vs \<and> list_all cls us
     \<and> backtrack prog vs (whole @ us) (foldl consume g us) = Some m"
proof (induction s arbitrary: whole g)
  case Nil
  then show ?case by auto
next
  case (Cons x xs)
  show ?case
  proof (cases "backtrack prog (x # xs) whole g")
    case (Some m')
    with Cons.prems have "backtrack prog (x # xs) (whole @ []) (foldl consume g []) = Some m"
      by simp
    then have "x # xs = [] @ (x # xs) \<and> list_all cls []
        \<and> backtrack prog (x # xs) (whole @ []) (foldl consume g []) = Some m"
      by simp
    then show ?thesis by blast
  next
    case None
    with Cons.prems have cx: "cls x"
      and rec: "backtrack (LazyStar cls # prog) xs (whole @ [x]) (consume g x) = Some m"
      by (auto split: if_splits)
    from Cons.IH [OF rec] obtain us vs where
      "xs = us @ vs" "list_all cls us"
      "backtrack prog vs ((whole @ [x]) @ us) (foldl consume (consume g x) us) = Some m"
      by blast
    with cx have "x # xs = (x # us) @ vs \<and> list_all cls (x # us)
        \<and> backtrack prog vs (whole @ (x # us)) (foldl consume g (x # us)) = Some m"
      by simp
    then show ?thesis by blast
  qed
qed

lemma backtrack_LazyStar:
  assumes "backtrack (LazyStar cls # prog) s whole g = Some m"
  obtains us vs where "s = us @ vs" and "list_all cls us"
    and "backtrack prog vs (whole @ us) (foldl consume g us) = Some m"
  using backtrack_LazyStar_ex [OF assms] by blast

lemma code_block_prog_match:
  assumes "backtrack code_block_prog s [] Unset = Some (whole, g)"
  shows "\<exists>tag body rest.
           s = ''```'' @ tag @ ''\<newline>'' @ body @ ''\<newline>```'' @ rest
         \<and> list_all alnum tag
         \<and> whole = ''```'' @ tag @ ''\<newline>'' @ body @ ''\<newline>```''
         \<and> g = Closed (body @ ''\<newline>'')"
proof -
  from assms obtain s1 where s1: "s = CHR ''`'' # s1"
    and m1: "backtrack (drop 1 code_block_prog) s1 ''`'' Unset = Some (whole, g)"
    unfolding code_block_prog_def by (auto elim!: backtrack_Lit)
  from m1 obtain s2 where s2: "s1 = CHR ''`'' # s2"
    and m2: "backtrack (drop 2 code_block_prog) s2 ''``'' Unset = Some (whole, g)"
    unfolding code_block_prog_def by (auto elim!: backtrack_Lit)
  from m2 obtain s3 where s3: "s2 = CHR ''`'' # s3"
    and m3: "backtrack (drop 3 code_block_prog) s3 ''```'' Unset = Some (whole, g)"
    unfolding code_block_prog_def by (auto elim!: backtrack_Lit)
  from m3 obtain tag s4 where s4: "s3 = tag @ s4" and tag: "list_all alnum tag"
    and m4: "backtrack (drop 4 code_block_prog) s4 (''```'' @ tag) Unset = Some (whole, g)"
    unfolding code_block_prog_def by (auto elim!: backtrack_LazyStar)
  from m4 obtain s5 where s5: "s4 = CHR ''\<newline>'' # s5"
    and m5: "backtrack (drop 6 code_block_prog) s5 (''```'' @ tag @ ''\<newline>'') (Opened []) = Some (whole, g)"
    unfolding code_block_prog_def by (auto elim!: backtrack_Lit)
  from m5 obtain body s6 where s6: "s5 = body @ s6"
    and m6: "backtrack (drop 7 code_block_prog) s6 (''```'' @ tag @ ''\<newline>'' @ body) (Opened body) = Some (whole, g)"
    unfolding code_block_prog_def by (auto elim!: backtrack_LazyStar)
  from m6 obtain s7 where s7: "s6 = CHR ''\<newline>'' # s7"
    and m7: "backtrack (drop 9 code_block_prog) s7 (''```'' @ tag @ ''\<newline>'' @ body @ ''\<newline>'') (Closed (body @ ''\<newline>'')) = Some (whole, g)"
    unfolding code_block_prog_def by (auto elim!: backtrack_Lit)
  from m7 obtain s8 where s8: "s7 = CHR ''`'' # s8"
    and m8: "backtrack (drop 10 code_block_prog) s8 (''```'' @ tag @ ''\<newline>'' @ body @ ''\<newline>`'') (Closed (body @ ''\<newline>'')) = Some (whole, g)"
    unfolding code_block_prog_def by (auto elim!: backtrack_Lit)
  from m8 obtain s9 where s9: "s8 = CHR ''`'' # s9"
    and m9: "backtrack (drop 11 code_block_prog) s9 (''```'' @ tag @ ''\<newline>'' @ body @ ''\<newline>``'') (Closed (body @ ''\<newline>'')) = Some (whole, g)"
    unfolding code_block_prog_def by (auto elim!: backtrack_Lit)
  from m9 obtain rest where s10: "s9 = CHR ''`'' # rest"
    and m10: "whole = ''```'' @ tag @ ''\<newline>'' @ body @ ''\<newline>```''" "g = Closed (body @ ''\<newline>'')"
    unfolding code_block_prog_def by (auto elim!: backtrack_Lit)
  have "s = ''```'' @ tag @ ''\<newline>'' @ body @ ''\<newline>```'' @ rest"
    using s1 s2 s3 s4 s5 s6 s7 s8 s9 s10 by simp
  with tag m10 show ?thesis by blast
qed


lemma FindStringSubmatch_code_block:
  "FindStringSubmatch code_block_prog s = Some ms \<Longrightarrow>
   \<exists>pre tag body rest.
      s = pre @ ''```'' @ tag @ ''\<newline>'' @ body @ ''\<newline>```'' @ rest
    \<and> list_all alnum tag
    \<and> ms = [''```'' @ tag @ ''\<newline>'' @ body @ ''\<newline>```'', body @ ''\<newline>'']"
proof (induction s)
  case Nil
  then obtain whole g where "backtrack code_block_prog [] [] Unset = Some (whole, g)"
    by (auto split: option.splits)
  from code_block_prog_match [OF this] show ?case by simp
next
  case (Cons x xs)
  show ?case
  proof (cases "backtrack code_block_prog (x # xs) [] Unset")
    case None
    with Cons.prems have "FindStringSubmatch code_block_prog xs = Some ms"
      by simp
    from Cons.IH [OF this] obtain pre tag body rest where
      "xs = pre @ ''```'' @ tag @ ''\<newline>'' @ body @ ''\<newline>```'' @ rest"
      "list_all alnum tag"
      "ms = [''```'' @ tag @ ''\<newline>'' @ body @ ''\<newline>```'', body @ ''\<newline>'']"
      by blast
    then have "x # xs = (x # pre) @ ''```'' @ tag @ ''\<newline>'' @ body @ ''\<newline>```'' @ rest
      \<and> list_all alnum tag
      \<and> ms = [''```'' @ tag @ ''\<newline>'' @ body @ ''\<newline>```'', body @ ''\<newline>'']"
      by simp
    then show ?thesis by blast
  next
    case (Some m)
    obtain whole g where m: "m = (whole, g)"
      by (cases m)
    from code_block_prog_match [OF Some [unfolded m]] obtain tag body rest where
      d: "x # xs = ''```'' @ tag @ ''\<newline>'' @ body @ ''\<newline>```'' @ rest"
      "list_all alnum tag"
      "whole = ''```'' @ tag @ ''\<newline>'' @ body @ ''\<newline>```''"
      "g = Closed (body @ ''\<newline>'')"
      by blast
    from Cons.prems Some m have "ms = [whole, submatch g]"
      by simp
    with d have "x # xs = [] @ ''```'' @ tag @ ''\<newline>'' @ body @ ''\<newline>```'' @ rest
      \<and> list_all alnum tag
      \<and> ms = [''```'' @ tag @ ''\<newline>'' @ body @ ''\<newline>```'', body @ ''\<newline>'']"
      by simp
    then show ?thesis by blast
  qed
qed

lemma split_from_no_sep: "sep \<notin> set a \<Longrightarrow> split_from cur a sep = [cur @ a]"
  by (induction a arbitrary: cur) auto

lemma split_from_sep:
  "sep \<notin> set a \<Longrightarrow> split_from cur (a @ sep # b) sep = (cur @ a) # split_from [] b sep"
  by (induction a arbitrary: cur) auto

lemma split_from_last:
  "sep \<notin> set l \<Longrightarrow> split_from cur (m @ sep # l) sep = split_from cur m sep @ [l]"
  by (induction m arbitrary: cur) (auto simp: split_from_no_sep)

lemma split_from_not_Nil [simp]: "split_from cur s sep \<noteq> []"
  by (induction s arbitrary: cur) auto

lemma Join_Cons: "ls \<noteq> [] \<Longrightarrow> Join (a # ls) sep = a @ sep @ Join ls sep"
  by (cases ls) auto

lemma Join_split_from: "Join (split_from cur s sep) [sep] = cur @ s"
  by (induction s arbitrary: cur) (auto simp: Join_Cons)

lemma length_split_from: "length (split_from cur s sep) = Suc (count_list s sep)"
  by (induction s arbitrary: cur) auto

lemma Contains_append: "Contains (p @ sub @ q) sub"
proof (induction p)
  case Nil
  have pre: "HasPrefix (sub @ q) sub"
    by (simp add: HasPrefix_def)
  show ?case
  proof (cases "sub @ q")
    case Nil
    then show ?thesis by simp
  next
    case (Cons a list)
    with pre show ?thesis by simp
  qed
next
  case (Cons x p)
  then show ?case by simp
qed

lemma HasPrefix_Contains: "HasPrefix s sub \<Longrightarrow> Contains s sub"
  by (cases s) (auto simp: HasPrefix_def)

lemma code_block_needs_two_newlines:
  assumes "FindStringSubmatch code_block_prog s = Some ms"
  shows "2 \<le> count_list s CHR ''\<newline>''"
proof -
  from FindStringSubmatch_code_block [OF assms] obtain pre tag body rest where
    "s = pre @ ''```'' @ tag @ ''\<newline>'' @ body @ ''\<newline>```'' @ rest"
    by blast
  then show ?thesis by simp
qed

lemma code_block_needs_fence:
  assumes "FindStringSubmatch code_block_prog s = Some ms"
  shows "Contains s ''```''"
proof -
  from FindStringSubmatch_code_block [OF assms] obtain pre tag body rest where
    "s = pre @ ''```'' @ (tag @ ''\<newline>'' @ body @ ''\<newline>```'' @ rest)"
    by auto
  then show ?thesis
    using Contains_append by blast
qed

lemma first_block_start:
  "backtrack code_block_prog (''```js\<newline>A\<newline>```'' @ rest) [] Unset
     = Some (''```js\<newline>A\<newline>```'', Closed ''A\<newline>'')"
  by (simp add: code_block_prog_def alnum_def in_range_def any_char_def)

lemma no_match_before_first_block:
  assumes "\<not> HasPrefix (x # pre) ''```''"
  shows "backtrack code_block_prog (x # pre @ ''```js\<newline>A\<newline>```'' @ rest) [] Unset = None"
proof (rule ccontr)
  assume "backtrack code_block_prog (x # pre @ ''```js\<newline>A\<newline>```'' @ rest) [] Unset \<noteq> None"
  then obtain whole g where
    "backtrack code_block_prog (x # pre @ ''```js\<newline>A\<newline>```'' @ rest) [] Unset = Some (whole, g)"
    by auto
  from code_block_prog_match [OF this] obtain tag body rest' where
    eq: "x # pre @ ''```js\<newline>A\<newline>```'' @ rest = ''```'' @ tag @ ''\<newline>'' @ body @ ''\<newline>```'' @ rest'"
    and tag: "list_all alnum tag"
    by blast
  show False
  proof (cases pre)
    case Nil
    with eq tag show False by (cases tag) auto
  next
    case (Cons y pre')
    note p1 = this
    show False
    proof (cases pre')
      case Nil
      with p1 eq tag show False by (cases tag) auto
    next
      case (Cons z pre'')
      with p1 eq assms show False by (auto simp: HasPrefix_def)
    qed
  qed
qed

lemma first_block_found:
  "\<not> Contains pre ''```'' \<Longrightarrow>
   FindStringSubmatch code_block_prog (pre @ ''```js\<newline>A\<newline>```'' @ rest)
     = Some [''```js\<newline>A\<newline>```'', ''A\<newline>'']"
proof (induction pre)
  case Nil
  have "FindStringSubmatch code_block_prog (''```js\<newline>A\<newline>```'' @ rest)
     = Some [''```js\<newline>A\<newline>```'', ''A\<newline>'']"
    using first_block_start [of rest] by simp
  then show ?case by simp
next
  case (Cons x pre)
  then have "\<not> HasPrefix (x # pre) ''```''" and "\<not> Contains pre ''```''"
    by auto
  then show ?case
    using no_match_before_first_block [of x pre rest] Cons.IH by simp
qed

section \<open>The response optimizer, verified\<close>

lemma findMarkdownFirstCodeBlock_eq:
  "findMarkdownFirstCodeBlock s =
     Inr (case FindStringSubmatch code_block_prog s of Some match \<Rightarrow> match ! 1 | None \<Rightarrow> [])"
  by (simp add: findMarkdownFirstCodeBlock_def regexp_Compile_def split: option.splits)

lemma optimizeResponseResult_no_strip:
  assumes "\<not> (HasPrefix raw ''```'' \<and> HasSuffix raw ''```'') \<or> length (Split raw CHR ''\<newline>'') \<le> 2"
  shows "optimizeResponseResult raw b =
     Inr (if b then (case FindStringSubmatch code_block_prog raw of
                       Some match \<Rightarrow> if match ! 1 \<noteq> [] then match ! 1 else raw
                     | None \<Rightarrow> raw)
          else raw)"
  using assms
  by (auto simp: optimizeResponseResult_def findMarkdownFirstCodeBlock_eq Let_def split: option.splits)

lemma few_lines_no_match:
  assumes "length (Split s CHR ''\<newline>'') \<le> 2"
  shows "FindStringSubmatch code_block_prog s = None"
proof (cases "FindStringSubmatch code_block_prog s")
  case None
  then show ?thesis .
next
  case (Some ms)
  from code_block_needs_two_newlines [OF this] assms show ?thesis
    by (simp add: Split_def length_split_from)
qed

lemma no_fence_no_match:
  assumes "\<not> Contains s ''```''"
  shows "FindStringSubmatch code_block_prog s = None"
  using assms code_block_needs_fence by (cases "FindStringSubmatch code_block_prog s") auto

text \<open>
  C5. The enclosing fence is stripped only when the text has more than two lines. For
  the raw text \<^verbatim>\<open>"```\nHELLO\n```"\<close> the result is \<^verbatim>\<open>"HELLO"\<close>, with the flag
  \<^verbatim>\<open>useFirstCodeBlock\<close> set or not. Every raw text that starts and ends with the
  fence and splits into at most two lines is returned as it is, again under both
  values of the flag (a text of at most two lines has at most one line break, and the
  pattern needs two); \<^verbatim>\<open>"``````"\<close> is such a text.
\<close>

theorem optimizeResponseResult_fence_guard:
  "optimizeResponseResult ''```\<newline>HELLO\<newline>```'' flag = Inr ''HELLO''
   \<and> (HasPrefix raw ''```'' \<and> HasSuffix raw ''```'' \<and> length (Split raw CHR ''\<newline>'') \<le> 2
        \<longrightarrow> optimizeResponseResult raw flag = Inr raw)
   \<and> optimizeResponseResult ''``````'' flag = Inr ''``````''"
proof -
  have hello: "optimizeResponseResult ''```\<newline>HELLO\<newline>```'' b = Inr ''HELLO''" for b
    by (cases b) (simp_all add: optimizeResponseResult_def findMarkdownFirstCodeBlock_eq
        HasPrefix_def HasSuffix_def Split_def slice_def code_block_prog_def)
  have guard: "optimizeResponseResult s b = Inr s"
    if "length (Split s CHR ''\<newline>'') \<le> 2" for s b
    using that by (simp add: optimizeResponseResult_no_strip few_lines_no_match)
  have "length (Split ''``````'' CHR ''\<newline>'') \<le> 2"
    by (simp add: Split_def)
  from guard [OF this] hello guard show ?thesis
    by blast
qed

theorem optimizeResponseResult_fence_guard_witness:
  "HasPrefix ''```\<newline>```'' ''```'' \<and> HasSuffix ''```\<newline>```'' ''```''
   \<and> length (Split ''```\<newline>```'' CHR ''\<newline>'') \<le> 2
   \<and> optimizeResponseResult ''```\<newline>```'' True = Inr ''```\<newline>```''"
  using optimizeResponseResult_fence_guard [of True "''```\<newline>```''"]
  by (simp add: HasPrefix_def HasSuffix_def Split_def)

lemma more_than_two_lines:
  "2 < length (Split raw CHR ''\<newline>'') \<longleftrightarrow>
   (\<exists>hd_line interior end_line. raw = hd_line @ ''\<newline>'' @ interior @ ''\<newline>'' @ end_line
      \<and> CHR ''\<newline>'' \<notin> set hd_line \<and> CHR ''\<newline>'' \<notin> set end_line)"
proof
  assume "2 < length (Split raw CHR ''\<newline>'')"
  then have c: "2 \<le> count_list raw CHR ''\<newline>''"
    by (simp add: Split_def length_split_from)
  then have "CHR ''\<newline>'' \<in> set raw"
    by (metis count_list_0_iff not_numeral_le_zero)
  then obtain hd_line r where r: "raw = hd_line @ CHR ''\<newline>'' # r" "CHR ''\<newline>'' \<notin> set hd_line"
    by (meson split_list_first)
  with c have "1 \<le> count_list r CHR ''\<newline>''"
    by (simp add: count_list_0_iff)
  then have "CHR ''\<newline>'' \<in> set r"
    by (metis count_list_0_iff not_one_le_zero)
  then obtain interior end_line where "r = interior @ CHR ''\<newline>'' # end_line" "CHR ''\<newline>'' \<notin> set end_line"
    by (meson split_list_last)
  with r have "raw = hd_line @ ''\<newline>'' @ interior @ ''\<newline>'' @ end_line
      \<and> CHR ''\<newline>'' \<notin> set hd_line \<and> CHR ''\<newline>'' \<notin> set end_line"
    by simp
  then show "\<exists>hd_line interior end_line. raw = hd_line @ ''\<newline>'' @ interior @ ''\<newline>'' @ end_line
      \<and> CHR ''\<newline>'' \<notin> set hd_line \<and> CHR ''\<newline>'' \<notin> set end_line"
    by blast
next
  assume "\<exists>hd_line interior end_line. raw = hd_line @ ''\<newline>'' @ interior @ ''\<newline>'' @ end_line
      \<and> CHR ''\<newline>'' \<notin> set hd_line \<and> CHR ''\<newline>'' \<notin> set end_line"
  then show "2 < length (Split raw CHR ''\<newline>'')"
    by (auto simp: Split_def length_split_from)
qed

lemma strip_first_and_last_line:
  assumes "CHR ''\<newline>'' \<notin> set hd_line" and "CHR ''\<newline>'' \<notin> set end_line"
  shows "Join (slice (Split (hd_line @ ''\<newline>'' @ interior @ ''\<newline>'' @ end_line) CHR ''\<newline>'') 1
           (length (Split (hd_line @ ''\<newline>'' @ interior @ ''\<newline>'' @ end_line) CHR ''\<newline>'') - 1))
           ''\<newline>'' = interior"
proof -
  have "Split (hd_line @ ''\<newline>'' @ interior @ ''\<newline>'' @ end_line) CHR ''\<newline>''
      = hd_line # split_from [] interior CHR ''\<newline>'' @ [end_line]"
    using assms split_from_sep [of "CHR ''\<newline>''" hd_line "[]" "interior @ CHR ''\<newline>'' # end_line"]
      split_from_last [of "CHR ''\<newline>''" end_line "[]" interior]
    by (simp add: Split_def)
  then show ?thesis
    using Join_split_from [of "[]" interior "CHR ''\<newline>''"]
    by (simp add: slice_def)
qed

lemma match_interior_not_empty:
  assumes "FindStringSubmatch code_block_prog s = Some match"
  shows "match ! 1 \<noteq> []"
proof -
  from FindStringSubmatch_code_block [OF assms] obtain whole body where
    "match = [whole, body @ ''\<newline>'']"
    by blast
  then show ?thesis by simp
qed

lemma optimizeResponseResult_strip:
  assumes "HasPrefix raw ''```''" and "HasSuffix raw ''```''"
    and "raw = hd_line @ ''\<newline>'' @ interior @ ''\<newline>'' @ end_line"
    and "CHR ''\<newline>'' \<notin> set hd_line" and "CHR ''\<newline>'' \<notin> set end_line"
  shows "optimizeResponseResult raw flag =
     Inr (if flag then (case FindStringSubmatch code_block_prog interior of
                          Some match \<Rightarrow> match ! 1
                        | None \<Rightarrow> interior)
          else interior)"
proof -
  have lines: "2 < length (Split raw CHR ''\<newline>'')"
    using assms more_than_two_lines [of raw] by blast
  have stripped: "Join (slice (Split raw CHR ''\<newline>'') 1 (length (Split raw CHR ''\<newline>'') - 1))
      ''\<newline>'' = interior"
    using assms strip_first_and_last_line [of hd_line end_line interior] by simp
  show ?thesis
  proof (cases "FindStringSubmatch code_block_prog interior")
    case None
    then show ?thesis
      using assms(1,2) lines stripped
      by (simp add: optimizeResponseResult_def findMarkdownFirstCodeBlock_eq)
  next
    case (Some match)
    then show ?thesis
      using assms(1,2) lines stripped match_interior_not_empty [OF Some]
      by (simp add: optimizeResponseResult_def findMarkdownFirstCodeBlock_eq)
  qed
qed

text \<open>
  C10. The fence step fires for every raw text that starts with the fence, ends with
  the fence and has more than two lines, and it removes the first and the last line
  whole, whether first-block extraction is asked for or not. A text has more than two
  lines exactly when it is a first line, a line break, an interior, a line break and a
  last line, the first and the last line free of line breaks. For such a text that
  starts and ends with the fence, whatever else stands on the first line (a language
  tag such as \<^verbatim>\<open>js\<close>) and whatever stands before the fence on the last line (the
  \<^verbatim>\<open>B\<close> of \<^verbatim>\<open>B```\<close>) is dropped: without first-block extraction the result is
  the interior, and with it the result is what the extraction makes of the interior
  (group 1 of the first match in the interior, or the interior when there is none).
\<close>

theorem optimizeResponseResult_strips_whole_lines:
  "(2 < length (Split raw CHR ''\<newline>'') \<longleftrightarrow>
      (\<exists>hd_line interior end_line. raw = hd_line @ ''\<newline>'' @ interior @ ''\<newline>'' @ end_line
         \<and> CHR ''\<newline>'' \<notin> set hd_line \<and> CHR ''\<newline>'' \<notin> set end_line))
   \<and> (HasPrefix raw ''```'' \<and> HasSuffix raw ''```''
        \<and> raw = hd_line @ ''\<newline>'' @ interior @ ''\<newline>'' @ end_line
        \<and> CHR ''\<newline>'' \<notin> set hd_line \<and> CHR ''\<newline>'' \<notin> set end_line
        \<longrightarrow> optimizeResponseResult raw flag =
              Inr (if flag then (case FindStringSubmatch code_block_prog interior of
                                   Some match \<Rightarrow> match ! 1
                                 | None \<Rightarrow> interior)
                   else interior))"
  using more_than_two_lines [of raw]
    optimizeResponseResult_strip [of raw hd_line interior end_line flag]
  by blast

theorem optimizeResponseResult_strips_whole_lines_witness:
  "HasPrefix ''```js\<newline>A\<newline>B```'' ''```'' \<and> HasSuffix ''```js\<newline>A\<newline>B```'' ''```''
   \<and> 2 < length (Split ''```js\<newline>A\<newline>B```'' CHR ''\<newline>'')
   \<and> optimizeResponseResult ''```js\<newline>A\<newline>B```'' False = Inr ''A''
   \<and> optimizeResponseResult ''```js\<newline>A\<newline>B```'' True = Inr ''A''
   \<and> optimizeResponseResult ''```md\<newline>x\<newline>```js\<newline>A\<newline>```\<newline>y\<newline>```'' True = Inr ''A\<newline>''"
proof -
  have none: "FindStringSubmatch code_block_prog ''A'' = None"
    by (simp add: code_block_prog_def)
  have inner: "FindStringSubmatch code_block_prog ''x\<newline>```js\<newline>A\<newline>```\<newline>y''
      = Some [''```js\<newline>A\<newline>```'', ''A\<newline>'']"
    by (simp add: code_block_prog_def alnum_def in_range_def any_char_def)
  show ?thesis
    using none inner
      optimizeResponseResult_strips_whole_lines
        [of "''```md\<newline>x\<newline>```js\<newline>A\<newline>```\<newline>y\<newline>```''" "''```md''"
            "''x\<newline>```js\<newline>A\<newline>```\<newline>y''" "''```''" True]
      optimizeResponseResult_strips_whole_lines
        [of "''```js\<newline>A\<newline>B```''" "''```js''" "''A''" "''B```''" False]
      optimizeResponseResult_strips_whole_lines
        [of "''```js\<newline>A\<newline>B```''" "''```js''" "''A''" "''B```''" True]
    by (simp add: HasPrefix_def HasSuffix_def Split_def)
qed

lemma opening_fence_in_front:
  assumes "pre @ ''```'' @ tag = p @ ''```'' @ tag' @ ''\<newline>'' @ z"
    and "CHR ''\<newline>'' \<notin> set tag"
  shows "Contains pre ''```''"
proof -
  from assms(1) have "(p @ ''```'' @ tag') @ (CHR ''\<newline>'' # z) = pre @ (''```'' @ tag)"
    by simp
  then have "\<exists>us. p @ ''```'' @ tag' = pre @ us \<and> us @ CHR ''\<newline>'' # z = ''```'' @ tag
     \<or> (p @ ''```'' @ tag') @ us = pre \<and> CHR ''\<newline>'' # z = us @ ''```'' @ tag"
    by (rule iffD1 [OF append_eq_append_conv2])
  then obtain us where
    "us @ CHR ''\<newline>'' # z = ''```'' @ tag \<or> (p @ ''```'' @ tag') @ us = pre"
    by blast
  then show ?thesis
  proof
    assume e: "us @ CHR ''\<newline>'' # z = ''```'' @ tag"
    have "CHR ''\<newline>'' \<in> set (us @ CHR ''\<newline>'' # z)"
      by simp
    then have "CHR ''\<newline>'' \<in> set (''```'' @ tag)"
      unfolding e .
    with assms(2) show ?thesis by simp
  next
    assume "(p @ ''```'' @ tag') @ us = pre"
    then have "pre = p @ ''```'' @ (tag' @ us)"
      by simp
    then show ?thesis
      using Contains_append [of p "''```''" "tag' @ us"] by simp
  qed
qed

lemma closing_fence_later:
  assumes "''\<newline>```'' @ rest = us @ ''\<newline>```'' @ r" and "us \<noteq> []"
  shows "Contains rest ''\<newline>```''"
proof (cases us)
  case Nil
  with assms(2) show ?thesis by simp
next
  case u1: (Cons a us1)
  show ?thesis
  proof (cases us1)
    case Nil
    with u1 assms(1) show ?thesis by simp
  next
    case u2: (Cons b us2)
    show ?thesis
    proof (cases us2)
      case Nil
      with u1 u2 assms(1) show ?thesis by simp
    next
      case u3: (Cons c us3)
      show ?thesis
      proof (cases us3)
        case Nil
        with u1 u2 u3 assms(1) show ?thesis by simp
      next
        case (Cons d us4)
        with u1 u2 u3 assms(1) have "rest = us4 @ ''\<newline>```'' @ r"
          by simp
        then show ?thesis
          using Contains_append [of us4 "''\<newline>```''" r] by simp
      qed
    qed
  qed
qed

lemma empty_block_no_match:
  assumes tag: "list_all alnum tag"
    and pre: "\<not> Contains pre ''```''"
    and rest: "\<not> Contains rest ''\<newline>```''"
  shows "FindStringSubmatch code_block_prog (pre @ ''```'' @ tag @ ''\<newline>```'' @ rest) = None"
proof (cases "FindStringSubmatch code_block_prog (pre @ ''```'' @ tag @ ''\<newline>```'' @ rest)")
  case None
  then show ?thesis .
next
  case (Some ms)
  from FindStringSubmatch_code_block [OF this] obtain p tag' body r where
    "pre @ ''```'' @ tag @ ''\<newline>```'' @ rest
       = p @ ''```'' @ tag' @ ''\<newline>'' @ body @ ''\<newline>```'' @ r"
    by blast
  then have "(pre @ ''```'' @ tag) @ (''\<newline>```'' @ rest)
       = (p @ ''```'' @ tag' @ ''\<newline>'' @ body) @ (''\<newline>```'' @ r)"
    by simp
  then have "\<exists>us.
       pre @ ''```'' @ tag = (p @ ''```'' @ tag' @ ''\<newline>'' @ body) @ us
       \<and> us @ ''\<newline>```'' @ rest = ''\<newline>```'' @ r
     \<or> (pre @ ''```'' @ tag) @ us = p @ ''```'' @ tag' @ ''\<newline>'' @ body
       \<and> ''\<newline>```'' @ rest = us @ ''\<newline>```'' @ r"
    by (rule iffD1 [OF append_eq_append_conv2])
  then obtain us where us:
    "pre @ ''```'' @ tag = (p @ ''```'' @ tag' @ ''\<newline>'' @ body) @ us
       \<and> us @ ''\<newline>```'' @ rest = ''\<newline>```'' @ r
     \<or> (pre @ ''```'' @ tag) @ us = p @ ''```'' @ tag' @ ''\<newline>'' @ body
       \<and> ''\<newline>```'' @ rest = us @ ''\<newline>```'' @ r"
    by blast
  have nl: "CHR ''\<newline>'' \<notin> set tag"
    using tag alnum_newline by (auto simp: list_all_iff)
  from us show ?thesis
  proof
    assume "pre @ ''```'' @ tag = (p @ ''```'' @ tag' @ ''\<newline>'' @ body) @ us
       \<and> us @ ''\<newline>```'' @ rest = ''\<newline>```'' @ r"
    then have "pre @ ''```'' @ tag = (p @ ''```'' @ tag' @ ''\<newline>'' @ body) @ us"
      by (rule conjunct1)
    then have "pre @ ''```'' @ tag = p @ ''```'' @ tag' @ ''\<newline>'' @ (body @ us)"
      by simp
    from opening_fence_in_front [OF this nl] pre show ?thesis
      by simp
  next
    assume c: "(pre @ ''```'' @ tag) @ us = p @ ''```'' @ tag' @ ''\<newline>'' @ body
       \<and> ''\<newline>```'' @ rest = us @ ''\<newline>```'' @ r"
    from c have c1: "(pre @ ''```'' @ tag) @ us = p @ ''```'' @ tag' @ ''\<newline>'' @ body"
      by (rule conjunct1)
    from c have c2: "''\<newline>```'' @ rest = us @ ''\<newline>```'' @ r"
      by (rule conjunct2)
    show ?thesis
    proof (cases "us = []")
      case True
      with c1 have "pre @ ''```'' @ tag = p @ ''```'' @ tag' @ ''\<newline>'' @ body"
        by simp
      from opening_fence_in_front [OF this nl] pre show ?thesis
        by simp
    next
      case False
      note c2
      from closing_fence_later [OF this False] rest show ?thesis
        by simp
    qed
  qed
qed

text \<open>
  C9 as stated fails: a fenced block with an empty body is matched when a later line
  starts with a fence. In the text below the match starts at the opening fence of the
  empty block \<^verbatim>\<open>"```js\n```"\<close> and runs to the last fence; the interior returned is
  the closing fence of the empty block and the line after it, and the optimizer
  replaces the text by it.
\<close>

theorem findMarkdownFirstCodeBlock_empty_block_counterexample:
  "FindStringSubmatch code_block_prog ''x\<newline>```js\<newline>```\<newline>A\<newline>```''
     = Some [''```js\<newline>```\<newline>A\<newline>```'', ''```\<newline>A\<newline>'']
   \<and> findMarkdownFirstCodeBlock ''x\<newline>```js\<newline>```\<newline>A\<newline>```'' = Inr ''```\<newline>A\<newline>''
   \<and> optimizeResponseResult ''x\<newline>```js\<newline>```\<newline>A\<newline>```'' True = Inr ''```\<newline>A\<newline>''
   \<and> ''```\<newline>A\<newline>'' \<noteq> ''x\<newline>```js\<newline>```\<newline>A\<newline>```''"
  by (simp add: optimizeResponseResult_def findMarkdownFirstCodeBlock_eq HasPrefix_def
      code_block_prog_def alnum_def in_range_def any_char_def)

text \<open>
  C9, amended. Whenever the pattern of \<open>findMarkdownFirstCodeBlock\<close> matches, the
  interior it returns (group 1 of the match) is not empty and ends with a line break.
  A fenced block with an empty body (an opening fence with a language tag of letters
  and digits, followed at once by a line break and the closing fence) is not matched
  when no fence stands before it and no later line starts with a fence; this holds in
  particular when the text is the block alone. Then the function returns the empty
  string, and the optimizer leaves the text as it was whenever its fence step does not
  fire (the text is not wrapped in fences or has at most two lines), as is the case
  for the block alone.
\<close>

theorem findMarkdownFirstCodeBlock_interior_ends_with_newline:
  "(FindStringSubmatch code_block_prog s = Some match \<longrightarrow>
      findMarkdownFirstCodeBlock s = Inr (match ! 1)
      \<and> match ! 1 \<noteq> [] \<and> HasSuffix (match ! 1) ''\<newline>'')
   \<and> (list_all alnum tag \<longrightarrow>
      FindStringSubmatch code_block_prog (''```'' @ tag @ ''\<newline>```'') = None
      \<and> findMarkdownFirstCodeBlock (''```'' @ tag @ ''\<newline>```'') = Inr []
      \<and> optimizeResponseResult (''```'' @ tag @ ''\<newline>```'') True
            = Inr (''```'' @ tag @ ''\<newline>```''))
   \<and> (list_all alnum tag \<and> \<not> Contains pre ''```'' \<and> \<not> Contains rest ''\<newline>```'' \<longrightarrow>
      FindStringSubmatch code_block_prog (pre @ ''```'' @ tag @ ''\<newline>```'' @ rest) = None
      \<and> findMarkdownFirstCodeBlock (pre @ ''```'' @ tag @ ''\<newline>```'' @ rest) = Inr []
      \<and> (\<not> (HasPrefix (pre @ ''```'' @ tag @ ''\<newline>```'' @ rest) ''```''
              \<and> HasSuffix (pre @ ''```'' @ tag @ ''\<newline>```'' @ rest) ''```'')
           \<or> length (Split (pre @ ''```'' @ tag @ ''\<newline>```'' @ rest) CHR ''\<newline>'') \<le> 2
         \<longrightarrow> optimizeResponseResult (pre @ ''```'' @ tag @ ''\<newline>```'' @ rest) True
               = Inr (pre @ ''```'' @ tag @ ''\<newline>```'' @ rest)))"
proof -
  have found: "findMarkdownFirstCodeBlock s = Inr (match ! 1)
      \<and> match ! 1 \<noteq> [] \<and> HasSuffix (match ! 1) ''\<newline>''"
    if m: "FindStringSubmatch code_block_prog s = Some match"
  proof -
    from FindStringSubmatch_code_block [OF m] obtain whole body where
      "match = [whole, body @ ''\<newline>'']"
      by blast
    then show ?thesis
      using m by (simp add: findMarkdownFirstCodeBlock_eq)
  qed
  have alone: "FindStringSubmatch code_block_prog (''```'' @ tag @ ''\<newline>```'') = None
      \<and> findMarkdownFirstCodeBlock (''```'' @ tag @ ''\<newline>```'') = Inr []
      \<and> optimizeResponseResult (''```'' @ tag @ ''\<newline>```'') True
            = Inr (''```'' @ tag @ ''\<newline>```'')"
    if t: "list_all alnum tag"
  proof -
    have "CHR ''\<newline>'' \<notin> set tag"
      using t alnum_newline by (auto simp: list_all_iff)
    then have "count_list tag CHR ''\<newline>'' = 0"
      by (simp add: count_list_0_iff)
    then have lines: "length (Split (''```'' @ tag @ ''\<newline>```'') CHR ''\<newline>'') \<le> 2"
      by (simp add: Split_def length_split_from)
    from few_lines_no_match [OF lines] lines show ?thesis
      by (simp add: findMarkdownFirstCodeBlock_eq optimizeResponseResult_no_strip)
  qed
  have inside: "FindStringSubmatch code_block_prog (pre @ ''```'' @ tag @ ''\<newline>```'' @ rest) = None
      \<and> findMarkdownFirstCodeBlock (pre @ ''```'' @ tag @ ''\<newline>```'' @ rest) = Inr []
      \<and> (\<not> (HasPrefix (pre @ ''```'' @ tag @ ''\<newline>```'' @ rest) ''```''
              \<and> HasSuffix (pre @ ''```'' @ tag @ ''\<newline>```'' @ rest) ''```'')
           \<or> length (Split (pre @ ''```'' @ tag @ ''\<newline>```'' @ rest) CHR ''\<newline>'') \<le> 2
         \<longrightarrow> optimizeResponseResult (pre @ ''```'' @ tag @ ''\<newline>```'' @ rest) True
               = Inr (pre @ ''```'' @ tag @ ''\<newline>```'' @ rest))"
    if "list_all alnum tag" "\<not> Contains pre ''```''" "\<not> Contains rest ''\<newline>```''"
  proof -
    have none: "FindStringSubmatch code_block_prog (pre @ ''```'' @ tag @ ''\<newline>```'' @ rest) = None"
      using that by (rule empty_block_no_match)
    show ?thesis
      using none
        optimizeResponseResult_no_strip [of "pre @ ''```'' @ tag @ ''\<newline>```'' @ rest" True]
      by (simp add: findMarkdownFirstCodeBlock_eq)
  qed
  from found alone inside show ?thesis
    by blast
qed

theorem findMarkdownFirstCodeBlock_interior_ends_with_newline_witness:
  "FindStringSubmatch code_block_prog ''x```js\<newline>A\<newline>```''
      = Some [''```js\<newline>A\<newline>```'', ''A\<newline>'']
   \<and> findMarkdownFirstCodeBlock ''x```js\<newline>A\<newline>```'' = Inr ''A\<newline>''
   \<and> list_all alnum ''js''
   \<and> FindStringSubmatch code_block_prog ''```js\<newline>```'' = None
   \<and> optimizeResponseResult ''```js\<newline>```'' True = Inr ''```js\<newline>```''
   \<and> \<not> Contains ''x\<newline>'' ''```'' \<and> \<not> Contains ''\<newline>A'' ''\<newline>```''
   \<and> \<not> HasPrefix ''x\<newline>```js\<newline>```\<newline>A'' ''```''
   \<and> FindStringSubmatch code_block_prog ''x\<newline>```js\<newline>```\<newline>A'' = None
   \<and> optimizeResponseResult ''x\<newline>```js\<newline>```\<newline>A'' True = Inr ''x\<newline>```js\<newline>```\<newline>A''"
proof -
  have m: "FindStringSubmatch code_block_prog ''x```js\<newline>A\<newline>```''
      = Some [''```js\<newline>A\<newline>```'', ''A\<newline>'']"
    by (simp add: code_block_prog_def alnum_def in_range_def any_char_def)
  have t: "list_all alnum ''js''"
    by (simp add: alnum_def in_range_def)
  have c: "\<not> Contains ''x\<newline>'' ''```''" "\<not> Contains ''\<newline>A'' ''\<newline>```''"
    "\<not> HasPrefix ''x\<newline>```js\<newline>```\<newline>A'' ''```''"
    by (simp_all add: HasPrefix_def)
  show ?thesis
    using m t c findMarkdownFirstCodeBlock_interior_ends_with_newline
      [of "''x```js\<newline>A\<newline>```''" "[''```js\<newline>A\<newline>```'', ''A\<newline>'']" "''js''"
          "''x\<newline>''" "''\<newline>A''"]
    by simp
qed

text \<open>
  C4 as stated fails: with first-block extraction on, a raw text that holds the blocks
  \<^verbatim>\<open>"```js\nA\n```"\<close> and \<^verbatim>\<open>"```py\nB\n```"\<close> in this order gives \<^verbatim>\<open>"A\n"\<close>,
  the interior with its line break, and not \<^verbatim>\<open>"A"\<close>.
\<close>

theorem optimizeResponseResult_first_block_counterexample:
  "optimizeResponseResult ''x\<newline>```js\<newline>A\<newline>```\<newline>```py\<newline>B\<newline>```'' True = Inr ''A\<newline>''
   \<and> ''A\<newline>'' \<noteq> ''A''"
  by (simp add: optimizeResponseResult_def findMarkdownFirstCodeBlock_eq HasPrefix_def
      code_block_prog_def alnum_def in_range_def any_char_def)

text \<open>
  When the raw text is the two blocks and nothing else, it starts and ends with the
  fence: the fence step removes its first and last line, and the pattern finds no
  block in what is left.
\<close>

lemma optimizeResponseResult_two_blocks_alone:
  "optimizeResponseResult ''```js\<newline>A\<newline>```\<newline>```py\<newline>B\<newline>```'' True
     = Inr ''A\<newline>```\<newline>```py\<newline>B''"
  by (simp add: optimizeResponseResult_def findMarkdownFirstCodeBlock_eq HasPrefix_def HasSuffix_def
      Split_def slice_def code_block_prog_def alnum_def in_range_def any_char_def)

text \<open>
  C4, amended. With first-block extraction on, let the raw text hold the block
  \<^verbatim>\<open>"```js\nA\n```"\<close> and later the block \<^verbatim>\<open>"```py\nB\n```"\<close>, with no fence
  before the first block, and let it not both start and end with the fence. Then the
  result is \<^verbatim>\<open>"A\n"\<close>: the interior of the first block with the line break that
  ends it. A raw text that holds no fence at all is returned unchanged, without error;
  so is every raw text that is not wrapped in fences and in which the pattern finds
  no block.
\<close>

theorem optimizeResponseResult_first_block:
  "(\<not> Contains pre ''```'' \<and> \<not> (HasPrefix raw ''```'' \<and> HasSuffix raw ''```'')
      \<and> raw = pre @ ''```js\<newline>A\<newline>```'' @ mid @ ''```py\<newline>B\<newline>```'' @ post
      \<longrightarrow> optimizeResponseResult raw True = Inr ''A\<newline>'')
   \<and> (\<not> Contains raw ''```'' \<longrightarrow> optimizeResponseResult raw True = Inr raw)
   \<and> (\<not> (HasPrefix raw ''```'' \<and> HasSuffix raw ''```'')
      \<and> FindStringSubmatch code_block_prog raw = None
      \<longrightarrow> optimizeResponseResult raw True = Inr raw)"
proof -
  have block: "optimizeResponseResult raw True = Inr ''A\<newline>''"
    if "\<not> Contains pre ''```''" "\<not> (HasPrefix raw ''```'' \<and> HasSuffix raw ''```'')"
      "raw = pre @ ''```js\<newline>A\<newline>```'' @ mid @ ''```py\<newline>B\<newline>```'' @ post"
  proof -
    have "FindStringSubmatch code_block_prog raw = Some [''```js\<newline>A\<newline>```'', ''A\<newline>'']"
      using that first_block_found [of pre "mid @ ''```py\<newline>B\<newline>```'' @ post"] by simp
    then show ?thesis
      using that(2) by (simp add: optimizeResponseResult_no_strip)
  qed
  have plain: "optimizeResponseResult raw True = Inr raw" if "\<not> Contains raw ''```''"
  proof -
    have "\<not> HasPrefix raw ''```''"
      using that HasPrefix_Contains by blast
    then show ?thesis
      using no_fence_no_match [OF that] by (simp add: optimizeResponseResult_no_strip)
  qed
  have unmatched: "optimizeResponseResult raw True = Inr raw"
    if "\<not> (HasPrefix raw ''```'' \<and> HasSuffix raw ''```'')"
      "FindStringSubmatch code_block_prog raw = None"
    using that by (simp add: optimizeResponseResult_no_strip)
  from block plain unmatched show ?thesis
    by blast
qed

theorem optimizeResponseResult_first_block_witness:
  "\<not> Contains ''x\<newline>'' ''```''
   \<and> \<not> HasPrefix ''x\<newline>```js\<newline>A\<newline>```\<newline>```py\<newline>B\<newline>```'' ''```''
   \<and> optimizeResponseResult ''x\<newline>```js\<newline>A\<newline>```\<newline>```py\<newline>B\<newline>```'' True = Inr ''A\<newline>''
   \<and> \<not> Contains ''no fence'' ''```''
   \<and> FindStringSubmatch code_block_prog ''no fence'' = None
   \<and> optimizeResponseResult ''no fence'' True = Inr ''no fence''"
proof -
  have a: "\<not> Contains ''x\<newline>'' ''```''"
    by (simp add: HasPrefix_def)
  have b: "\<not> HasPrefix ''x\<newline>```js\<newline>A\<newline>```\<newline>```py\<newline>B\<newline>```'' ''```''"
    by (simp add: HasPrefix_def)
  have c: "\<not> Contains ''no fence'' ''```''"
    by (simp add: HasPrefix_def)
  have d: "FindStringSubmatch code_block_prog ''no fence'' = None"
    by (simp add: code_block_prog_def)
  show ?thesis
    using a b c d
      optimizeResponseResult_first_block
        [of "''x\<newline>''" "''x\<newline>```js\<newline>A\<newline>```\<newline>```py\<newline>B\<newline>```''" "''\<newline>''" "[]"]
      optimizeResponseResult_first_block [of "[]" "''no fence''" "[]" "[]"]
    by simp
qed

section \<open>The requester, verified\<close>

declare request_loop.simps [simp del]

lemma request_loop_done: "\<not> i < maxCount \<Longrightarrow> request_loop g cr maxCount i result w = (Inr result, w)"
  by (subst request_loop.simps) simp

lemma request_loop_step:
  "i < maxCount \<Longrightarrow>
   request_loop g cr maxCount i result w =
     (case gai_RequestCreateChatCompletion g cr w of
        (Inl err, w') \<Rightarrow>
          (Inl (Errorf (''failed to send chat message: '' @ ErrorString err) err), w')
      | (Inr completion, w') \<Rightarrow>
          (case Choices completion of
             [] \<Rightarrow> (Inr result, w')
           | choice # others \<Rightarrow>
               if FinishReason choice \<noteq> ''length''
               then (Inr (result @ Content (Message choice)), w')
               else request_loop g cr maxCount (i + 1) (result @ Content (Message choice)) w'))"
  by (subst request_loop.simps) (simp add: Let_def split: prod.splits sum.splits list.splits)

lemma request_loop_single:
  "request_loop g cr 1 0 [] w =
     (case gai_RequestCreateChatCompletion g cr w of
        (Inl err, w') \<Rightarrow>
          (Inl (Errorf (''failed to send chat message: '' @ ErrorString err) err), w')
      | (Inr completion, w') \<Rightarrow>
          (case Choices completion of
             [] \<Rightarrow> (Inr [], w')
           | choice # others \<Rightarrow> (Inr (Content (Message choice)), w')))"
  by (simp add: request_loop_step request_loop_done split: prod.splits sum.splits list.splits)

lemma requestCreateChatCompletion_eq:
  "requestCreateChatCompletion s prompt w =
     (case gai_MakeCreateChatCompletion (gai s) prompt w of
        (cr, w1) \<Rightarrow>
          (case gai_RequestCreateChatCompletion (gai s) cr w1 of
             (Inl err, w2) \<Rightarrow>
               (Inl (Errorf (''failed to send chat message: '' @ ErrorString err) err), w2)
           | (Inr completion, w2) \<Rightarrow>
               (case Choices completion of
                  [] \<Rightarrow> (Inr [], w2)
                | choice # others \<Rightarrow> (Inr (Content (Message choice)), w2))))"
  by (simp add: requestCreateChatCompletion_def request_loop_single)

lemma recording_calls:
  "snd (snd (requestCreateChatCompletion (NewShaper (recording g) n useFirst optimize) prompt (w, calls)))
     = calls @ [MakeCall prompt, SendCall (fst (gai_MakeCreateChatCompletion g prompt w))]"
  by (simp add: requestCreateChatCompletion_eq NewShaper_def recording_def
      split: prod.splits sum.splits list.splits)

text \<open>
  C2. For every configured repeat count \<open>n\<close>, \<open>requestCreateChatCompletion\<close> asks
  the client for exactly one request and sends it exactly once: a client that logs its
  calls ends with the log of one \<open>MakeCall\<close> of the prompt and one \<open>SendCall\<close> of
  the request made. When the response has choices, the result is the content of the
  first one, whatever the others are and whatever its finish reason is; a first choice
  that finished for \<^verbatim>\<open>"length"\<close> is returned like any other, with no second request
  and no error.
\<close>

theorem requestCreateChatCompletion_one_request_one_send:
  "snd (snd (requestCreateChatCompletion (NewShaper (recording g) n useFirst optimize) prompt (w, [])))
     = [MakeCall prompt, SendCall (fst (gai_MakeCreateChatCompletion g prompt w))]
   \<and> (gai_MakeCreateChatCompletion g prompt w = (cr, w1)
        \<and> gai_RequestCreateChatCompletion g cr w1 = (Inr completion, w2)
        \<and> Choices completion = choice # others
      \<longrightarrow> requestCreateChatCompletion (NewShaper g n useFirst optimize) prompt w
            = (Inr (Content (Message choice)), w2))"
  using recording_calls [of g n useFirst optimize prompt w "[]"]
  by (simp add: requestCreateChatCompletion_eq NewShaper_def)

theorem requestCreateChatCompletion_one_request_one_send_witness:
  "snd (snd (requestCreateChatCompletion
       (NewShaper (recording (canned (completion_of
          [choice_of ''par'' ''length'', choice_of ''other'' ''stop'']))) 5 False True)
       ''p'' (0, [])))
     = [MakeCall ''p'', SendCall ''p'']
   \<and> requestCreateChatCompletion
       (NewShaper (canned (completion_of
          [choice_of ''par'' ''length'', choice_of ''other'' ''stop''])) 5 False True) ''p'' 0
     = (Inr ''par'', 1)"
  using requestCreateChatCompletion_one_request_one_send
    [of "canned (completion_of [choice_of ''par'' ''length'', choice_of ''other'' ''stop''])"
        5 False True "''p''" 0 "''p''" 0
        "completion_of [choice_of ''par'' ''length'', choice_of ''other'' ''stop'']" 1
        "choice_of ''par'' ''length''" "[choice_of ''other'' ''stop'']"]
  by (simp add: canned_def completion_of_def choice_of_def)

text \<open>
  C6. When the response of the client has no choices, the loop stops and returns the
  content gathered so far as a success; in \<open>requestCreateChatCompletion\<close>, where the
  first iteration starts with nothing gathered, the result is the empty string and
  not an error.
\<close>

theorem requestCreateChatCompletion_no_choices:
  "(i < maxCount \<and> gai_RequestCreateChatCompletion g cr w = (Inr completion, w')
      \<and> Choices completion = []
      \<longrightarrow> request_loop g cr maxCount i result w = (Inr result, w'))
   \<and> (gai_MakeCreateChatCompletion (gai s) prompt w0 = (cr, w)
      \<and> gai_RequestCreateChatCompletion (gai s) cr w = (Inr completion, w')
      \<and> Choices completion = []
      \<longrightarrow> requestCreateChatCompletion s prompt w0 = (Inr [], w'))"
  by (simp add: requestCreateChatCompletion_eq request_loop_step)

theorem requestCreateChatCompletion_no_choices_witness:
  "requestCreateChatCompletion (NewShaper (canned (completion_of [])) 1 False True) ''p'' 0
     = (Inr [], 1)"
  using requestCreateChatCompletion_no_choices
    [of 0 1 "canned (completion_of [])" "''p''" 0 "completion_of []" 1 "[]"
        "NewShaper (canned (completion_of [])) 1 False True" "''p''" 0]
  by (simp add: canned_def completion_of_def NewShaper_def)

section \<open>The orchestrator, verified\<close>

lemma NewShaper_sel [simp]:
  "gai (NewShaper g n u p) = g"
  "maxCompletionRepeatCount (NewShaper g n u p) = n"
  "useFirstCodeBlock (NewShaper g n u p) = u"
  "promptOptimize (NewShaper g n u p) = p"
  by (simp_all add: NewShaper_def)

lemma ShapeText_direct:
  assumes "inputOrg = []" and "\<not> promptOptimize s"
  shows "ShapeText s promptOrg inputOrg w =
     (case requestCreateChatCompletion s promptOrg w of
        (Inl err, w') \<Rightarrow> (Inl err, w')
      | (Inr rawResult, w') \<Rightarrow>
          (Inr \<lparr>Prompt = promptOrg, RawResult = rawResult,
                Result = (if HasSuffix rawResult ''\<newline>'' then rawResult
                          else rawResult @ ''\<newline>'')\<rparr>, w'))"
  using assms
  by (simp add: ShapeText_def NewShapeResult_def split: prod.splits sum.splits)

lemma ShapeText_recording_calls:
  "snd (snd (ShapeText (NewShaper (recording g) n useFirst optimize) promptOrg inputOrg (w, [])))
     = (let sent = (if inputOrg = [] \<and> \<not> optimize then promptOrg
                    else optimizePrompt promptOrg inputOrg)
        in [MakeCall sent, SendCall (fst (gai_MakeCreateChatCompletion g sent w))])"
proof -
  have calls: "snd (snd (requestCreateChatCompletion (NewShaper (recording g) n useFirst optimize) p (w, [])))
     = [MakeCall p, SendCall (fst (gai_MakeCreateChatCompletion g p w))]" for p
    using recording_calls [of g n useFirst optimize p w "[]"] by simp
  have opt: "promptOptimize (NewShaper (recording g) n useFirst optimize) = optimize"
    by (simp add: NewShaper_def)
  show ?thesis
  proof (cases "inputOrg = [] \<and> \<not> optimize")
    case True
    then show ?thesis
      using calls [of promptOrg] opt
      by (auto simp: ShapeText_def split: prod.splits sum.splits)
  next
    case False
    then show ?thesis
      using calls [of "optimizePrompt promptOrg inputOrg"] opt
      by (auto simp: ShapeText_def Let_def split: prod.splits sum.splits)
  qed
qed

text \<open>
  C7. Direct mode: when the input is empty and prompt optimization is off, the prompt
  handed to the client is the original prompt (the logged calls are one \<open>MakeCall\<close>
  of it and one \<open>SendCall\<close> of the request made from it), and a result that is
  returned carries the original prompt, the raw completion, and as \<open>Result\<close> the raw
  completion with a line break added when it does not end with one: the response
  optimizer is not applied.
\<close>

theorem ShapeText_direct_mode:
  "inputOrg = [] \<and> \<not> optimize \<longrightarrow>
     snd (snd (ShapeText (NewShaper (recording g) n useFirst optimize) promptOrg inputOrg (w, [])))
       = [MakeCall promptOrg, SendCall (fst (gai_MakeCreateChatCompletion g promptOrg w))]
     \<and> (\<forall>r w'. ShapeText (NewShaper g n useFirst optimize) promptOrg inputOrg w = (Inr r, w') \<longrightarrow>
           requestCreateChatCompletion (NewShaper g n useFirst optimize) promptOrg w
             = (Inr (RawResult r), w')
           \<and> Prompt r = promptOrg
           \<and> Result r = (if HasSuffix (RawResult r) ''\<newline>'' then RawResult r
                          else RawResult r @ ''\<newline>''))"
proof (intro impI conjI allI)
  assume d: "inputOrg = [] \<and> \<not> optimize"
  show "snd (snd (ShapeText (NewShaper (recording g) n useFirst optimize) promptOrg inputOrg (w, [])))
       = [MakeCall promptOrg, SendCall (fst (gai_MakeCreateChatCompletion g promptOrg w))]"
    using d ShapeText_recording_calls [of g n useFirst optimize promptOrg inputOrg w] by simp
next
  fix r w'
  assume d: "inputOrg = [] \<and> \<not> optimize"
    and ok: "ShapeText (NewShaper g n useFirst optimize) promptOrg inputOrg w = (Inr r, w')"
  have "\<not> promptOptimize (NewShaper g n useFirst optimize)"
    using d by (simp add: NewShaper_def)
  from ShapeText_direct [OF _ this, of inputOrg promptOrg w] d ok
  have r: "requestCreateChatCompletion (NewShaper g n useFirst optimize) promptOrg w
             = (Inr (RawResult r), w')
           \<and> Prompt r = promptOrg
           \<and> Result r = (if HasSuffix (RawResult r) ''\<newline>'' then RawResult r
                          else RawResult r @ ''\<newline>'')"
    by (auto split: prod.splits sum.splits)
  from r show "requestCreateChatCompletion (NewShaper g n useFirst optimize) promptOrg w
             = (Inr (RawResult r), w')" by blast
  from r show "Prompt r = promptOrg" by blast
  from r show "Result r = (if HasSuffix (RawResult r) ''\<newline>'' then RawResult r
                          else RawResult r @ ''\<newline>'')" by blast
qed

lemma canned_request:
  "requestCreateChatCompletion (NewShaper (canned (completion_of [choice_of content reason])) n u p)
     prompt k = (Inr content, Suc k)"
  by (simp add: requestCreateChatCompletion_eq NewShaper_def canned_def completion_of_def choice_of_def)

theorem ShapeText_direct_mode_witness:
  "ShapeText (NewShaper (canned (completion_of [choice_of ''```\<newline>HELLO\<newline>```'' ''stop''])) 1 True False)
     ''fix it'' [] 0
     = (Inr \<lparr>Prompt = ''fix it'', RawResult = ''```\<newline>HELLO\<newline>```'',
             Result = ''```\<newline>HELLO\<newline>```\<newline>''\<rparr>, 1)
   \<and> snd (snd (ShapeText (NewShaper (recording (canned (completion_of
         [choice_of ''```\<newline>HELLO\<newline>```'' ''stop'']))) 1 True False) ''fix it'' [] (0, [])))
       = [MakeCall ''fix it'', SendCall ''fix it'']"
proof -
  have run: "ShapeText (NewShaper (canned (completion_of [choice_of ''```\<newline>HELLO\<newline>```'' ''stop''])) 1 True False)
     ''fix it'' [] 0
     = (Inr \<lparr>Prompt = ''fix it'', RawResult = ''```\<newline>HELLO\<newline>```'',
             Result = ''```\<newline>HELLO\<newline>```\<newline>''\<rparr>, 1)"
    by (simp add: ShapeText_def canned_request NewShapeResult_def HasSuffix_def Let_def)
  show ?thesis
    using run ShapeText_direct_mode
      [of "[]" False "canned (completion_of [choice_of ''```\<newline>HELLO\<newline>```'' ''stop''])"
          1 True "''fix it''" 0]
    by (simp add: canned_def)
qed

text \<open>
  C1 as stated fails: when the completion ends with two line breaks, so does the
  \<open>Result\<close> that \<open>ShapeText\<close> returns; it does not end with exactly one.
\<close>

theorem ShapeText_two_terminators_counterexample:
  "fst (ShapeText (NewShaper (canned (completion_of [choice_of ''a\<newline>\<newline>'' ''stop''])) 1 False False)
     ''p'' [] 0)
     = Inr \<lparr>Prompt = ''p'', RawResult = ''a\<newline>\<newline>'', Result = ''a\<newline>\<newline>''\<rparr>
   \<and> \<not> ends_with_one_terminator ''a\<newline>\<newline>''"
  by (simp add: ShapeText_def canned_request NewShapeResult_def HasSuffix_def Let_def
      ends_with_one_terminator_def)

lemma HasSuffix_two_newlines:
  "HasSuffix (c @ ''\<newline>'') ''\<newline>\<newline>'' \<longleftrightarrow> HasSuffix c ''\<newline>''"
  by (auto simp: HasSuffix_iff suffix_def)

lemma HasSuffix_two_implies_one: "HasSuffix c ''\<newline>\<newline>'' \<Longrightarrow> HasSuffix c ''\<newline>''"
  by (auto simp: HasSuffix_iff suffix_def)

lemma NewShapeResult_terminated:
  "HasSuffix (Result (NewShapeResult p raw c)) ''\<newline>''
   \<and> Result (NewShapeResult p raw c) = (if HasSuffix c ''\<newline>'' then c else c @ ''\<newline>'')
   \<and> (ends_with_one_terminator (Result (NewShapeResult p raw c)) \<longleftrightarrow> \<not> HasSuffix c ''\<newline>\<newline>'')"
  using HasSuffix_two_implies_one [of c]
  by (auto simp: NewShapeResult_def ends_with_one_terminator_def HasSuffix_two_newlines)

text \<open>
  C1, amended. Every \<open>Result\<close> that \<open>ShapeText\<close> returns ends with a line break.
  It is the computed result (the raw completion in direct mode, the optimized
  response otherwise), as it is when that ends with a line break and with one line
  break added when it does not. It ends with exactly one line break unless the
  computed result already ends with two.
\<close>

theorem ShapeText_result_terminated:
  "ShapeText s promptOrg inputOrg w = (Inr r, w') \<Longrightarrow>
   HasSuffix (Result r) ''\<newline>''
   \<and> (\<exists>computed.
         (if inputOrg = [] \<and> \<not> promptOptimize s then computed = RawResult r
          else optimizeResponseResult (RawResult r) (useFirstCodeBlock s) = Inr computed)
       \<and> Result r = (if HasSuffix computed ''\<newline>'' then computed else computed @ ''\<newline>'')
       \<and> (ends_with_one_terminator (Result r) \<longleftrightarrow> \<not> HasSuffix computed ''\<newline>\<newline>''))"
proof (cases "inputOrg = [] \<and> \<not> promptOptimize s")
  case True
  assume ok: "ShapeText s promptOrg inputOrg w = (Inr r, w')"
  with True obtain raw where "r = NewShapeResult promptOrg raw raw"
    by (auto simp: ShapeText_def split: prod.splits sum.splits)
  moreover from this have "RawResult r = raw"
    by (simp add: NewShapeResult_def)
  ultimately show ?thesis
    using True NewShapeResult_terminated [of promptOrg raw raw] by auto
next
  case False
  assume ok: "ShapeText s promptOrg inputOrg w = (Inr r, w')"
  with False obtain raw c where "r = NewShapeResult (optimizePrompt promptOrg inputOrg) raw c"
    and "optimizeResponseResult raw (useFirstCodeBlock s) = Inr c"
    by (auto simp: ShapeText_def Let_def split: prod.splits sum.splits)
  moreover from this have "RawResult r = raw"
    by (simp add: NewShapeResult_def)
  ultimately show ?thesis
    using False NewShapeResult_terminated [of "optimizePrompt promptOrg inputOrg" raw c] by auto
qed

theorem ShapeText_result_terminated_witness:
  "ShapeText (NewShaper (canned (completion_of [choice_of ''abc'' ''stop''])) 1 False False) ''p'' [] 0
     = (Inr \<lparr>Prompt = ''p'', RawResult = ''abc'', Result = ''abc\<newline>''\<rparr>, 1)
   \<and> HasSuffix ''abc\<newline>'' ''\<newline>'' \<and> ends_with_one_terminator ''abc\<newline>''"
proof -
  have run: "ShapeText (NewShaper (canned (completion_of [choice_of ''abc'' ''stop''])) 1 False False) ''p'' [] 0
     = (Inr \<lparr>Prompt = ''p'', RawResult = ''abc'', Result = ''abc\<newline>''\<rparr>, 1)"
    by (simp add: ShapeText_def canned_request NewShapeResult_def HasSuffix_def Let_def)
  show ?thesis
    using run ShapeText_result_terminated [OF run]
    by (simp add: HasSuffix_def ends_with_one_terminator_def)
qed

section \<open>The transport, verified\<close>

declare show_nat.simps [simp del]

lemma show_int_400: "show_int 400 = ''400''"
  by (simp add: show_int_def show_nat.simps digit_def)

lemma RequestCreateChatCompletion_received:
  assumes "sendChatCompletionsRequest c lib ctx ccc w = (Inr resp, w')"
    and "Body resp = Inr respBody"
  shows "RequestCreateChatCompletion c lib ctx ccc w =
     (if StatusCode resp > 299 then
        (case json_Unmarshal_ErrorResponse lib respBody of
           Inl msg \<Rightarrow>
             (Inl (Errorf (''failed to unmarshal error response: '' @ msg) (Foreign msg)), w')
         | Inr errorResponse \<Rightarrow>
             (Inl (Errorf (''unexpected status code: '' @ show_int (StatusCode resp) @ '' ''
                            @ [CHR 0x27] @ ErrorDetail.Message (Error errorResponse) @ [CHR 0x27])
                     ErrUnexpectedStatusCode), w'))
      else
        (case json_Unmarshal_ChatCompletion lib respBody of
           Inl msg \<Rightarrow> (Inl (Errorf (''failed to unmarshal response body: '' @ msg) (Foreign msg)), w')
         | Inr completion \<Rightarrow> (Inr completion, w')))"
  using assms
  by (simp add: RequestCreateChatCompletion_def makeChatCompletions_def split: sum.splits)

text \<open>
  C3. Once a response has been received and its body read, the status code decides.
  Above 299, a body that decodes as an error response gives the error that wraps
  \<open>ErrUnexpectedStatusCode\<close> and whose message holds the status code in decimal and
  the message of the body; a body that does not decode gives another error, which
  does not wrap \<open>ErrUnexpectedStatusCode\<close>. From 299 down, a body that does not
  decode as a completion gives a third error, different from both.
\<close>

theorem RequestCreateChatCompletion_status_classification:
  "sendChatCompletionsRequest c lib ctx ccc w = (Inr resp, w') \<and> Body resp = Inr respBody \<longrightarrow>
     (299 < StatusCode resp \<and> json_Unmarshal_ErrorResponse lib respBody = Inr errorResponse \<longrightarrow>
        RequestCreateChatCompletion c lib ctx ccc w
          = (Inl (Errorf (''unexpected status code: '' @ show_int (StatusCode resp) @ '' ''
                    @ [CHR 0x27] @ ErrorDetail.Message (Error errorResponse) @ [CHR 0x27])
                  ErrUnexpectedStatusCode), w')
        \<and> errors_Is (Errorf (''unexpected status code: '' @ show_int (StatusCode resp) @ '' ''
                    @ [CHR 0x27] @ ErrorDetail.Message (Error errorResponse) @ [CHR 0x27])
                  ErrUnexpectedStatusCode) ErrUnexpectedStatusCode)
   \<and> (299 < StatusCode resp \<and> json_Unmarshal_ErrorResponse lib respBody = Inl msg \<longrightarrow>
        RequestCreateChatCompletion c lib ctx ccc w
          = (Inl (Errorf (''failed to unmarshal error response: '' @ msg) (Foreign msg)), w')
        \<and> \<not> errors_Is (Errorf (''failed to unmarshal error response: '' @ msg) (Foreign msg))
              ErrUnexpectedStatusCode)
   \<and> (StatusCode resp \<le> 299 \<and> json_Unmarshal_ChatCompletion lib respBody = Inl msg \<longrightarrow>
        RequestCreateChatCompletion c lib ctx ccc w
          = (Inl (Errorf (''failed to unmarshal response body: '' @ msg) (Foreign msg)), w')
        \<and> \<not> errors_Is (Errorf (''failed to unmarshal response body: '' @ msg) (Foreign msg))
              ErrUnexpectedStatusCode
        \<and> Errorf (''failed to unmarshal response body: '' @ msg) (Foreign msg)
              \<noteq> Errorf (''failed to unmarshal error response: '' @ msg') (Foreign msg'))"
proof (intro impI)
  assume "sendChatCompletionsRequest c lib ctx ccc w = (Inr resp, w') \<and> Body resp = Inr respBody"
  then have r: "sendChatCompletionsRequest c lib ctx ccc w = (Inr resp, w')" "Body resp = Inr respBody"
    by simp_all
  note eq = RequestCreateChatCompletion_received [OF r]
  show "(299 < StatusCode resp \<and> json_Unmarshal_ErrorResponse lib respBody = Inr errorResponse \<longrightarrow>
        RequestCreateChatCompletion c lib ctx ccc w
          = (Inl (Errorf (''unexpected status code: '' @ show_int (StatusCode resp) @ '' ''
                    @ [CHR 0x27] @ ErrorDetail.Message (Error errorResponse) @ [CHR 0x27])
                  ErrUnexpectedStatusCode), w')
        \<and> errors_Is (Errorf (''unexpected status code: '' @ show_int (StatusCode resp) @ '' ''
                    @ [CHR 0x27] @ ErrorDetail.Message (Error errorResponse) @ [CHR 0x27])
                  ErrUnexpectedStatusCode) ErrUnexpectedStatusCode)
   \<and> (299 < StatusCode resp \<and> json_Unmarshal_ErrorResponse lib respBody = Inl msg \<longrightarrow>
        RequestCreateChatCompletion c lib ctx ccc w
          = (Inl (Errorf (''failed to unmarshal error response: '' @ msg) (Foreign msg)), w')
        \<and> \<not> errors_Is (Errorf (''failed to unmarshal error response: '' @ msg) (Foreign msg))
              ErrUnexpectedStatusCode)
   \<and> (StatusCode resp \<le> 299 \<and> json_Unmarshal_ChatCompletion lib respBody = Inl msg \<longrightarrow>
        RequestCreateChatCompletion c lib ctx ccc w
          = (Inl (Errorf (''failed to unmarshal response body: '' @ msg) (Foreign msg)), w')
        \<and> \<not> errors_Is (Errorf (''failed to unmarshal response body: '' @ msg) (Foreign msg))
              ErrUnexpectedStatusCode
        \<and> Errorf (''failed to unmarshal response body: '' @ msg) (Foreign msg)
              \<noteq> Errorf (''failed to unmarshal error response: '' @ msg') (Foreign msg'))"
    by (simp add: eq)
qed

theorem RequestCreateChatCompletion_status_classification_witness:
  "RequestCreateChatCompletion stub_client (stub_library 400 bad_request_body) () ''req'' 0
     = (Inl (Errorf (''unexpected status code: 400 '' @ [CHR 0x27] @ ''bad request'' @ [CHR 0x27])
               ErrUnexpectedStatusCode), 1)
   \<and> RequestCreateChatCompletion stub_client (stub_library 500 ''<html>'') () ''req'' 0
     = (Inl (Errorf ''failed to unmarshal error response: invalid character''
               (Foreign ''invalid character'')), 1)
   \<and> RequestCreateChatCompletion stub_client (stub_library 200 ''<html>'') () ''req'' 0
     = (Inl (Errorf ''failed to unmarshal response body: unexpected end of JSON input''
               (Foreign ''unexpected end of JSON input'')), 1)"
proof -
  have sent: "sendChatCompletionsRequest stub_client (stub_library code body) () ''req'' 0
      = (Inr \<lparr>StatusCode = code, Body = Inr body\<rparr>, 1)" for code body
    by (simp add: sendChatCompletionsRequest_def stub_library_def)
  have dec: "json_Unmarshal_ErrorResponse (stub_library code body) bad_request_body
      = Inr \<lparr>Error = \<lparr>ErrorDetail.Message = ''bad request''\<rparr>\<rparr>"
    "json_Unmarshal_ErrorResponse (stub_library code body) ''<html>'' = Inl ''invalid character''"
    "json_Unmarshal_ChatCompletion (stub_library code body) ''<html>''
      = Inl ''unexpected end of JSON input''" for code body
    by (simp_all add: stub_library_def bad_request_body_def)
  show ?thesis
    using sent dec show_int_400
      RequestCreateChatCompletion_status_classification
        [of stub_client "stub_library 400 bad_request_body" "()" "''req''" 0
            "\<lparr>StatusCode = 400, Body = Inr bad_request_body\<rparr>" 1 bad_request_body
            "\<lparr>Error = \<lparr>ErrorDetail.Message = ''bad request''\<rparr>\<rparr>" "[]" "[]"]
      RequestCreateChatCompletion_status_classification
        [of stub_client "stub_library 500 ''<html>''" "()" "''req''" 0
            "\<lparr>StatusCode = 500, Body = Inr ''<html>''\<rparr>" 1 "''<html>''"
            "\<lparr>Error = \<lparr>ErrorDetail.Message = []\<rparr>\<rparr>" "''invalid character''" "[]"]
      RequestCreateChatCompletion_status_classification
        [of stub_client "stub_library 200 ''<html>''" "()" "''req''" 0
            "\<lparr>StatusCode = 200, Body = Inr ''<html>''\<rparr>" 1 "''<html>''"
            "\<lparr>Error = \<lparr>ErrorDetail.Message = []\<rparr>\<rparr>" "''unexpected end of JSON input''" "[]"]
    by simp
qed

end
